theory Spec2Isabelle
  imports Complex_Main "HOL-Library.Sublist"
begin

section \<open>Data model\<close>

text \<open>
  A dataset element as the translation pipeline of
  \<^verbatim>\<open>data_tools/dataset_processers.py\<close> uses it: the loop of
  \<^verbatim>\<open>_translate_dataset\<close> reads and assigns \<^verbatim>\<open>element.id\<close> and
  \<^verbatim>\<open>element.text\<close>.

  Modelled from the spec: the module \<^verbatim>\<open>data_tools.dataset_class\<close>
  (\<^verbatim>\<open>DatasetElement\<close>, \<^verbatim>\<open>dataset_from_dict\<close>, \<^verbatim>\<open>dataset_to_dict\<close>) is not among
  the sources. The spec gives an element the fields id, text and label/category, all
  strings, and a cache file is one JSON array of such dictionaries.
\<close>

record DatasetElement =
  elem_id :: string
  elem_text :: string
  elem_category :: string

datatype json_dict = JsonDict (json_id: string) (json_text: string) (json_category: string)

text \<open>Modelled from the spec: \<^verbatim>\<open>dataset_from_dict\<close> of the missing module
  \<^verbatim>\<open>data_tools.dataset_class\<close>, one element per dictionary of the JSON array.\<close>

definition dataset_from_dict :: "json_dict list \<Rightarrow> DatasetElement list" where
  "dataset_from_dict ds =
     map (\<lambda>d. \<lparr>elem_id = json_id d, elem_text = json_text d, elem_category = json_category d\<rparr>) ds"

text \<open>Modelled from the spec: \<^verbatim>\<open>dataset_to_dict\<close> of the missing module
  \<^verbatim>\<open>data_tools.dataset_class\<close>, one dictionary per element.\<close>

definition dataset_to_dict :: "DatasetElement list \<Rightarrow> json_dict list" where
  "dataset_to_dict es = map (\<lambda>e. JsonDict (elem_id e) (elem_text e) (elem_category e)) es"

text \<open>
  The exceptions the pipeline can raise. \<open>BackendError\<close> stands for whatever the
  external translation library raises when a model cannot be loaded or generation fails.
\<close>

datatype error = FileNotFoundError string | ValueError string | BackendError

text \<open>
  The disk: the JSON files that exist, by path, each holding its parsed array.
  \<^verbatim>\<open>os.path.exists(p)\<close> is \<open>disk p \<noteq> None\<close>. Directories are not represented
  (\<^verbatim>\<open>os.makedirs(..., exist_ok=True)\<close> creates no file).
\<close>

type_synonym disk = "string \<rightharpoonup> json_dict list"

text \<open>
  What a call does besides reading and writing files is recorded as a list of events, in
  order: every invocation of \<^verbatim>\<open>_load_translation_model\<close>, every invocation of
  \<^verbatim>\<open>_translate_text\<close> (with the text passed) and every file written.
\<close>

datatype event = LoadModel string string | TranslateText string | WriteFile string

fun is_load :: "event \<Rightarrow> bool" where
  "is_load (LoadModel _ _) = True"
| "is_load _ = False"

fun is_write :: "event \<Rightarrow> bool" where
  "is_write (WriteFile _) = True"
| "is_write _ = False"

section \<open>The external translation library and the settings\<close>

text \<open>
  The objects of the \<^verbatim>\<open>transformers\<close> library, as far as the code uses them: a
  tokenizer is called on a text and gives \<^verbatim>\<open>input_ids\<close> and \<^verbatim>\<open>attention_mask\<close>, and
  decodes a token sequence; a model has \<^verbatim>\<open>config.max_length\<close> and \<^verbatim>\<open>generate\<close>, whose
  first output sequence is used and which may fail (\<open>None\<close>).
\<close>

record BatchEncoding =
  input_ids :: "nat list"
  attention_mask :: "nat list"

record MarianTokenizer =
  tokenize :: "string \<Rightarrow> BatchEncoding"
  decode :: "nat list \<Rightarrow> string"

record MarianMTModel =
  max_length :: int
  generate :: "BatchEncoding \<Rightarrow> nat list option"

text \<open>
  The parts of the repository and of its environment that the sources import but do not
  contain are parameters: the file-name scheme \<^verbatim>\<open>get_transtation_file_name\<close> of
  \<^verbatim>\<open>data_tools.dataset_utils\<close>, the constants of \<^verbatim>\<open>settings\<close>, and the model hub
  behind \<^verbatim>\<open>from_pretrained\<close> (\<open>None\<close>: the load fails).
\<close>

record env =
  get_transtation_file_name :: "string \<Rightarrow> string \<Rightarrow> string list \<Rightarrow> string"
  TRAIN_DATASET_EN :: string
  TRAIN_DATASET_ES :: string
  TRAIN_TRANSLATED_DATASET_FOLDER :: string
  tokenizer_from_pretrained :: "string \<Rightarrow> MarianTokenizer option"
  model_from_pretrained :: "string \<Rightarrow> MarianMTModel option"

section \<open>Python library functions\<close>

text \<open>\<^verbatim>\<open>sep.join(xs)\<close>.\<close>

fun str_join :: "string \<Rightarrow> string list \<Rightarrow> string" where
  "str_join sep [] = []"
| "str_join sep [x] = x"
| "str_join sep (x # y # ys) = x @ sep @ str_join sep (y # ys)"

text \<open>\<^verbatim>\<open>s.split(c)\<close> for a separator of one character; the result is never empty.\<close>

fun str_split :: "char \<Rightarrow> string \<Rightarrow> string list" where
  "str_split c [] = [[]]"
| "str_split c (x # xs) =
     (if x = c then [] # str_split c xs
      else (case str_split c xs of [] \<Rightarrow> [[x]] | w # ws \<Rightarrow> (x # w) # ws))"

text \<open>\<^verbatim>\<open>os.path.join(a, b)\<close> of \<^verbatim>\<open>posixpath\<close>, for two components.\<close>

definition os_path_join :: "string \<Rightarrow> string \<Rightarrow> string" where
  "os_path_join a b =
     (if b \<noteq> [] \<and> hd b = CHR ''/'' then b
      else if a = [] \<or> last a = CHR ''/'' then a @ b
      else a @ ''/'' @ b)"

text \<open>
  The indices \<^verbatim>\<open>range(i, stop, step)\<close> runs through for a positive step, as the loop
  that starts at \<open>i\<close> and adds \<open>step\<close> while below \<open>stop\<close>.
\<close>

function range_step :: "nat \<Rightarrow> nat \<Rightarrow> nat \<Rightarrow> nat list" where
  "range_step i stop step =
     (if 0 < step \<and> i < stop then i # range_step (i + step) stop step else [])"
  by pat_completeness auto
termination
  by (relation "measure (\<lambda>(i, stop, step). stop - i)") auto

declare range_step.simps [simp del]

section \<open>The translation engine\<close>

text \<open>\<^verbatim>\<open>_load_translation_model\<close>: the tokenizer is loaded first, then the model.\<close>

definition load_translation_model ::
  "env \<Rightarrow> string \<Rightarrow> string \<Rightarrow> error + (MarianMTModel \<times> MarianTokenizer)" where
  "load_translation_model E src_lang dest_lang =
     (let model_name = ''Helsinki-NLP/opus-mt-'' @ src_lang @ ''-'' @ dest_lang in
      case tokenizer_from_pretrained E model_name of
        None \<Rightarrow> Inl BackendError
      | Some tokenizer \<Rightarrow>
          (case model_from_pretrained E model_name of
             None \<Rightarrow> Inl BackendError
           | Some model \<Rightarrow> Inr (model, tokenizer)))"

text \<open>
  \<^verbatim>\<open>_get_tokenized_chunks\<close>. \<^verbatim>\<open>range(0, n, 0)\<close> raises \<^verbatim>\<open>ValueError\<close>, and
  \<^verbatim>\<open>range(0, n, step)\<close> with a negative step is empty.
\<close>

definition get_tokenized_chunks ::
  "string \<Rightarrow> MarianTokenizer \<Rightarrow> int \<Rightarrow> error + BatchEncoding list" where
  "get_tokenized_chunks text tokenizer max_len =
     (let tokens = tokenize tokenizer text;
          ids = input_ids tokens;
          mask = attention_mask tokens
      in if max_len = 0 then Inl (ValueError ''range() arg 3 must not be zero'')
         else if max_len < 0 then Inr []
         else Inr (map (\<lambda>i. \<lparr>input_ids = take (nat max_len) (drop i ids),
                               attention_mask = take (nat max_len) (drop i mask)\<rparr>)
                       (range_step 0 (length ids) (nat max_len))))"

text \<open>The loop of \<^verbatim>\<open>_translate_text\<close> over the chunks, in order.\<close>

fun translate_chunks ::
  "MarianTokenizer \<Rightarrow> MarianMTModel \<Rightarrow> BatchEncoding list \<Rightarrow> error + string list" where
  "translate_chunks tokenizer model [] = Inr []"
| "translate_chunks tokenizer model (chunk # chunks) =
     (case generate model chunk of
        None \<Rightarrow> Inl BackendError
      | Some chunk_outputs \<Rightarrow>
          (case translate_chunks tokenizer model chunks of
             Inl e \<Rightarrow> Inl e
           | Inr translated \<Rightarrow> Inr (decode tokenizer chunk_outputs # translated)))"

text \<open>\<^verbatim>\<open>_translate_text\<close>; \<^verbatim>\<open>//\<close> is floor division, as \<open>div\<close> on \<open>int\<close>.\<close>

definition translate_text :: "string \<Rightarrow> MarianTokenizer \<Rightarrow> MarianMTModel \<Rightarrow> error + string" where
  "translate_text text tokenizer model =
     (case get_tokenized_chunks text tokenizer (max_length model div 2) of
        Inl e \<Rightarrow> Inl e
      | Inr tokenized_chunks \<Rightarrow>
          (case translate_chunks tokenizer model tokenized_chunks of
             Inl e \<Rightarrow> Inl e
           | Inr transladed_chunks \<Rightarrow> Inr (str_join '' '' transladed_chunks)))"

section \<open>Loading a dataset\<close>

text \<open>
  \<^verbatim>\<open>load_dataset_full\<close> of \<^verbatim>\<open>data_tools/dataset_loaders.py\<close> for \<^verbatim>\<open>format='json'\<close>,
  the format of every call in the translation pipeline (the \<^verbatim>\<open>docbin\<close> branch builds
  spaCy documents). First the loop that collects the file names, then the loop that
  reads the files.
\<close>

fun file_names :: "env \<Rightarrow> string \<Rightarrow> string list list \<Rightarrow> error + string list" where
  "file_names E dest_lang [] = Inr []"
| "file_names E dest_lang (src_lang # rest) =
     (case (case src_lang of
              [] \<Rightarrow> (if dest_lang = ''en'' then Inr (TRAIN_DATASET_EN E)
                     else if dest_lang = ''es'' then Inr (TRAIN_DATASET_ES E)
                     else Inl (ValueError (''Unknown language: '' @ dest_lang)))
            | s0 # mids \<Rightarrow>
                Inr (os_path_join (TRAIN_TRANSLATED_DATASET_FOLDER E)
                       (get_transtation_file_name E s0 dest_lang mids))) of
        Inl e \<Rightarrow> Inl e
      | Inr f \<Rightarrow> (case file_names E dest_lang rest of Inl e \<Rightarrow> Inl e | Inr fs \<Rightarrow> Inr (f # fs)))"

fun read_files :: "disk \<Rightarrow> string list \<Rightarrow> error + json_dict list" where
  "read_files D [] = Inr []"
| "read_files D (f # fs) =
     (case D f of
        None \<Rightarrow> Inl (FileNotFoundError (''File not found: '' @ f))
      | Some content \<Rightarrow>
          (case read_files D fs of Inl e \<Rightarrow> Inl e | Inr dataset \<Rightarrow> Inr (content @ dataset)))"

definition load_dataset_full ::
  "env \<Rightarrow> disk \<Rightarrow> string \<Rightarrow> string list list \<Rightarrow> error + json_dict list" where
  "load_dataset_full E D dest_lang src_langs =
     (case file_names E dest_lang src_langs of
        Inl e \<Rightarrow> Inl e
      | Inr file_name \<Rightarrow> read_files D file_name)"

section \<open>The multi-hop translation orchestrator\<close>

text \<open>
  Every function returns its result or the exception raised, the disk it leaves, and the
  events it caused.
\<close>

type_synonym 'a outcome = "(error + 'a) \<times> disk \<times> event list"

text \<open>
  The inner loop of \<^verbatim>\<open>_translate_dataset\<close> (lines 146 to 148): for each element, the
  id becomes the part of the id before the first underscore, an underscore, and the
  languages \<^verbatim>\<open>translation_langs[:lang_index+2]\<close> joined by underscores; then the text is
  translated. An exception ends the loop.
\<close>

fun translate_elements ::
  "string list \<Rightarrow> nat \<Rightarrow> MarianTokenizer \<Rightarrow> MarianMTModel \<Rightarrow> DatasetElement list
     \<Rightarrow> (error + DatasetElement list) \<times> event list" where
  "translate_elements translation_langs lang_index tokenizer model [] = (Inr [], [])"
| "translate_elements translation_langs lang_index tokenizer model (element # elements) =
     (let new_id = hd (str_split (CHR ''_'') (elem_id element)) @ ''_''
                     @ str_join ''_'' (take (lang_index + 2) translation_langs)
      in case translate_text (elem_text element) tokenizer model of
           Inl e \<Rightarrow> (Inl e, [TranslateText (elem_text element)])
         | Inr t \<Rightarrow>
             (case translate_elements translation_langs lang_index tokenizer model elements of
                (Inl e, evs) \<Rightarrow> (Inl e, TranslateText (elem_text element) # evs)
              | (Inr done, evs) \<Rightarrow>
                  (Inr (element\<lparr>elem_id := new_id, elem_text := t\<rparr> # done),
                   TranslateText (elem_text element) # evs)))"

text \<open>
  One iteration of the loop over the hops (lines 142 to 152): load the model of the
  hop, translate every element, then write the hop's cache file. The loop runs it for
  \<^verbatim>\<open>lang_index < len - 1\<close> only, so the list accesses are in range.
\<close>

definition translate_hop ::
  "env \<Rightarrow> string list \<Rightarrow> nat \<Rightarrow> DatasetElement list \<Rightarrow> disk \<Rightarrow> DatasetElement list outcome" where
  "translate_hop E translation_langs lang_index translated_dataset D =
     (let src_lang = translation_langs ! lang_index;
          dest_lang = translation_langs ! (lang_index + 1)
      in case load_translation_model E src_lang dest_lang of
           Inl e \<Rightarrow> (Inl e, D, [LoadModel src_lang dest_lang])
         | Inr (model, tokenizer) \<Rightarrow>
             (case translate_elements translation_langs lang_index tokenizer model
                     translated_dataset of
                (Inl e, evs) \<Rightarrow> (Inl e, D, LoadModel src_lang dest_lang # evs)
              | (Inr translated, evs) \<Rightarrow>
                  (let file = os_path_join (TRAIN_TRANSLATED_DATASET_FOLDER E)
                                (get_transtation_file_name E (translation_langs ! 0) dest_lang
                                   (drop 1 (take (lang_index + 1) translation_langs)))
                   in (Inr translated, D(file \<mapsto> dataset_to_dict translated),
                       LoadModel src_lang dest_lang # evs @ [WriteFile file]))))"

text \<open>The loop over the hops, \<^verbatim>\<open>for lang_index in range(new_src_index, len - 1)\<close>, as a
  recursion over the indices still to do.\<close>

fun translate_hops ::
  "env \<Rightarrow> string list \<Rightarrow> nat list \<Rightarrow> DatasetElement list \<Rightarrow> disk \<Rightarrow> DatasetElement list outcome" where
  "translate_hops E translation_langs [] translated_dataset D = (Inr translated_dataset, D, [])"
| "translate_hops E translation_langs (lang_index # rest) translated_dataset D =
     (case translate_hop E translation_langs lang_index translated_dataset D of
        (Inl e, D', evs) \<Rightarrow> (Inl e, D', evs)
      | (Inr translated, D', evs) \<Rightarrow>
          (case translate_hops E translation_langs rest translated D' of
             (r, D'', evs') \<Rightarrow> (r, D'', evs @ evs')))"

text \<open>
  The search for a cached prefix (lines 130 to 139),
  \<^verbatim>\<open>for last_transition_index in range(len - 1, 0, -1)\<close>: the first argument counts
  down from \<^verbatim>\<open>len - 1\<close>; the result is \<^verbatim>\<open>new_src_index\<close> and \<^verbatim>\<open>translated_dataset\<close>
  as they stand after the loop. The indices are at most \<^verbatim>\<open>len - 1\<close>, so the list accesses
  are in range.
\<close>

fun find_cached ::
  "env \<Rightarrow> disk \<Rightarrow> string list \<Rightarrow> DatasetElement list \<Rightarrow> nat
     \<Rightarrow> error + (nat \<times> DatasetElement list)" where
  "find_cached E D translation_langs translated_dataset 0 = Inr (0, translated_dataset)"
| "find_cached E D translation_langs translated_dataset (Suc k) =
     (let last_transition_index = Suc k;
          src_lang = translation_langs ! 0;
          dest_lang = translation_langs ! last_transition_index;
          mid_langs = drop 1 (take last_transition_index translation_langs)
      in if D (os_path_join (TRAIN_TRANSLATED_DATASET_FOLDER E)
                 (get_transtation_file_name E src_lang dest_lang mid_langs)) \<noteq> None
         then (case load_dataset_full E D dest_lang [[src_lang] @ mid_langs] of
                 Inl e \<Rightarrow> Inl e
               | Inr d \<Rightarrow> Inr (last_transition_index, dataset_from_dict d))
         else find_cached E D translation_langs translated_dataset k)"

text \<open>The check of lines 126 to 128: some hop has equal source and destination.\<close>

definition has_equal_hop :: "string list \<Rightarrow> bool" where
  "has_equal_hop translation_langs =
     list_ex (\<lambda>(src_lang, dest_lang). src_lang = dest_lang)
       (zip (butlast translation_langs) (tl translation_langs))"

text \<open>\<^verbatim>\<open>_translate_dataset\<close>.\<close>

definition translate_dataset ::
  "env \<Rightarrow> disk \<Rightarrow> string \<Rightarrow> string \<Rightarrow> string list \<Rightarrow> DatasetElement list outcome" where
  "translate_dataset E D src_lang dest_lang transition_langs =
     (case load_dataset_full E D src_lang [[src_lang]] of
        Inl e \<Rightarrow> (Inl e, D, [])
      | Inr d \<Rightarrow>
          (let translated_dataset = dataset_from_dict d in
           if length transition_langs = 0 \<and> src_lang = dest_lang
           then (Inr translated_dataset, D, [])
           else
             (let translation_langs = [src_lang] @ transition_langs @ [dest_lang] in
              if has_equal_hop translation_langs
              then (Inl (ValueError
                     ''Source and destination languages must be different for each transition.''),
                    D, [])
              else
                (case find_cached E D translation_langs translated_dataset
                        (length translation_langs - 1) of
                   Inl e \<Rightarrow> (Inl e, D, [])
                 | Inr (new_src_index, cached_dataset) \<Rightarrow>
                     translate_hops E translation_langs
                       [new_src_index ..< length translation_langs - 1] cached_dataset D))))"

text \<open>\<^verbatim>\<open>get_translated_dataset\<close>; only \<^verbatim>\<open>FileNotFoundError\<close> is caught, and an exception
  raised by \<^verbatim>\<open>_translate_dataset\<close> in the handler propagates.\<close>

definition get_translated_dataset ::
  "env \<Rightarrow> disk \<Rightarrow> string \<Rightarrow> string \<Rightarrow> string list \<Rightarrow> DatasetElement list outcome" where
  "get_translated_dataset E D src_lang dest_lang transition_langs =
     (if src_lang = dest_lang \<and> length transition_langs = 0
      then (case load_dataset_full E D dest_lang [[dest_lang]] of
              Inl e \<Rightarrow> (Inl e, D, [])
            | Inr d \<Rightarrow> (Inr (dataset_from_dict d), D, []))
      else
        (case load_dataset_full E D dest_lang [[src_lang] @ transition_langs] of
           Inr d \<Rightarrow> (Inr (dataset_from_dict d), D, [])
         | Inl (FileNotFoundError m) \<Rightarrow> translate_dataset E D src_lang dest_lang transition_langs
         | Inl e \<Rightarrow> (Inl e, D, [])))"

section \<open>Notions used in the statements\<close>

text \<open>
  The path \<^verbatim>\<open>load_dataset_full\<close> reads for the entry \<open>src_lang # mid_langs\<close> and the
  language \<open>dest_lang\<close>, which is also the path the hop loop writes and the search for a
  cached prefix tests. For \<open>translated_file E l l []\<close> it is the base dataset of the
  language \<open>l\<close>, the file \<^verbatim>\<open>_translate_dataset\<close> loads first.
\<close>

definition translated_file :: "env \<Rightarrow> string \<Rightarrow> string \<Rightarrow> string list \<Rightarrow> string" where
  "translated_file E src_lang dest_lang mid_langs =
     os_path_join (TRAIN_TRANSLATED_DATASET_FOLDER E)
       (get_transtation_file_name E src_lang dest_lang mid_langs)"

text \<open>The cache file of the prefix of the chain that ends at index \<open>k\<close>.\<close>

definition cache_file :: "env \<Rightarrow> string list \<Rightarrow> nat \<Rightarrow> string" where
  "cache_file E translation_langs k =
     translated_file E (translation_langs ! 0) (translation_langs ! k)
       (drop 1 (take k translation_langs))"

text \<open>The model load of hop \<open>j\<close>, from language \<open>j\<close> of the chain to language \<open>j + 1\<close>.\<close>

definition hop_load :: "string list \<Rightarrow> nat \<Rightarrow> event" where
  "hop_load translation_langs j = LoadModel (translation_langs ! j) (translation_langs ! (j + 1))"

text \<open>The id an element gets from a chain of languages: the part of its id before the
  first underscore, an underscore, and the chain joined by underscores.\<close>

definition lineage_id :: "string list \<Rightarrow> string \<Rightarrow> string" where
  "lineage_id langs i = takeWhile (\<lambda>c. c \<noteq> CHR ''_'') i @ ''_'' @ str_join ''_'' langs"

section \<open>Example inputs\<close>

text \<open>
  A tokenizer with one token per character, a model that generates its input and has
  maximum length 4 (chunks of two tokens), a model whose generation always fails, a
  file-name scheme, and disks with a base dataset of one element.
\<close>

definition ex_tokenizer :: MarianTokenizer where
  "ex_tokenizer =
     \<lparr>tokenize = (\<lambda>s. \<lparr>input_ids = map (\<lambda>c. if c = CHR ''a'' then 0 else 1) s,
                          attention_mask = map (\<lambda>c. 1) s\<rparr>),
      decode = map (\<lambda>n. if n = 0 then CHR ''x'' else CHR ''y'')\<rparr>"

definition ex_model :: MarianMTModel where
  "ex_model = \<lparr>max_length = 4, generate = (\<lambda>b. Some (input_ids b))\<rparr>"

definition ex_broken_model :: MarianMTModel where
  "ex_broken_model = \<lparr>max_length = 4, generate = (\<lambda>b. None)\<rparr>"

definition ex_file_name :: "string \<Rightarrow> string \<Rightarrow> string list \<Rightarrow> string" where
  "ex_file_name src_lang dest_lang mid_langs =
     str_join ''-'' ([src_lang] @ mid_langs @ [dest_lang]) @ ''.json''"

definition ex_env :: env where
  "ex_env =
     \<lparr>get_transtation_file_name = ex_file_name,
      TRAIN_DATASET_EN = ''dataset_en.json'',
      TRAIN_DATASET_ES = ''dataset_es.json'',
      TRAIN_TRANSLATED_DATASET_FOLDER = ''cache'',
      tokenizer_from_pretrained = (\<lambda>name. Some ex_tokenizer),
      model_from_pretrained = (\<lambda>name. Some ex_model)\<rparr>"

definition ex_env_broken :: env where
  "ex_env_broken =
     ex_env\<lparr>model_from_pretrained :=
              (\<lambda>name. if name = ''Helsinki-NLP/opus-mt-fr-es'' then Some ex_broken_model
                       else Some ex_model)\<rparr>"

definition ex_disk_base :: disk where
  "ex_disk_base = [''cache/en-en.json'' \<mapsto> [JsonDict ''7'' ''ab'' ''CRITICAL'']]"

definition ex_disk_prefix :: disk where
  "ex_disk_prefix = ex_disk_base(''cache/en-fr.json'' \<mapsto> [JsonDict ''7_en_fr'' ''ba'' ''CRITICAL''])"

definition ex_disk_dup :: disk where
  "ex_disk_dup = ex_disk_base(''cache/en-en-es.json'' \<mapsto> [JsonDict ''7_en_en_es'' ''zz'' ''CRITICAL''])"

definition ex_disk_no_base :: disk where
  "ex_disk_no_base = [''cache/en-fr.json'' \<mapsto> [JsonDict ''7_en_fr'' ''ba'' ''CRITICAL'']]"

section \<open>Library facts\<close>

lemma from_to_dict: "dataset_from_dict (dataset_to_dict es) = es"
  by (induction es) (simp_all add: dataset_from_dict_def dataset_to_dict_def)

lemma str_split_nonempty: "str_split c s \<noteq> []"
  by (induction s) (auto split: list.splits)

lemma hd_str_split: "hd (str_split c s) = takeWhile (\<lambda>x. x \<noteq> c) s"
  by (induction s) (auto split: list.splits simp: str_split_nonempty)

lemma range_step_eq:
  "0 < M \<Longrightarrow> range_step i n M = map (\<lambda>k. i + k * M) [0 ..< (n - i + M - 1) div M]"
proof (induction i n M rule: range_step.induct)
  case (1 i stop step)
  show ?case
  proof (cases "i < stop")
    case False
    then have "(stop - i + step - 1) div step = 0" using 1(2) by simp
    then show ?thesis using False by (simp add: range_step.simps[of i stop step])
  next
    case True
    have e: "stop - i + step - 1 = (stop - i - 1) + step" using True by simp
    have "(stop - (i + step) + step - 1) div step = (stop - i - 1) div step"
    proof (cases "i + step \<le> stop")
      case True
      then have "stop - (i + step) + step - 1 = stop - i - 1" by simp
      then show ?thesis by simp
    next
      case False
      then have "stop - (i + step) + step - 1 < step" "stop - i - 1 < step" using 1(2) True by simp_all
      then show ?thesis by simp
    qed
    then have d: "(stop - i + step - 1) div step = Suc ((stop - (i + step) + step - 1) div step)"
      unfolding e using 1(2) by simp
    have ih: "range_step (i + step) stop step =
        map (\<lambda>k. i + step + k * step) [0..<(stop - (i + step) + step - 1) div step]"
      using 1(1) True 1(2) by simp
    have "[0 ..< Suc ((stop - (i + step) + step - 1) div step)]
        = 0 # map Suc [0 ..< (stop - (i + step) + step - 1) div step]"
      by (simp only: map_Suc_upt upt_conv_Cons[OF zero_less_Suc])
    then show ?thesis
      unfolding d using True 1(2) ih
      by (simp add: range_step.simps[of i stop step] comp_def del: upt_Suc)
  qed
qed

lemma ceiling_nat_div:
  assumes "0 < M"
  shows "\<lceil>real N / real M\<rceil> = int ((N + M - 1) div M)"
proof -
  define q where "q = (N + M - 1) div M"
  have split: "N + M - 1 = q * M + (N + M - 1) mod M"
    unfolding q_def by simp
  have r: "(N + M - 1) mod M < M" using assms by simp
  have up: "N \<le> q * M" using split r by linarith
  have lo: "q * M < N + M" using split assms by linarith
  have "real N \<le> real (q * M)" using up by (simp only: of_nat_le_iff)
  then have a: "real N / real M \<le> of_int (int q)"
    using assms by (simp add: pos_divide_le_eq)
  have "real (q * M) < real (N + M)" using lo by (simp only: of_nat_less_iff)
  then have "(real q - 1) * real M < real N"
    by (simp add: left_diff_distrib)
  then have b: "of_int (int q) - 1 < real N / real M"
    using assms by (simp add: pos_less_divide_eq)
  show ?thesis unfolding q_def[symmetric] using a b by (rule_tac ceiling_unique) simp_all
qed

lemma concat_chunks_aux:
  "0 < M \<Longrightarrow> n = length xs \<Longrightarrow>
     concat (map (\<lambda>i. take M (drop i xs)) (range_step i n M)) = drop i xs"
proof (induction i n M rule: range_step.induct)
  case (1 i stop step)
  show ?case
  proof (cases "i < stop")
    case True
    then have ih: "concat (map (\<lambda>i. take step (drop i xs)) (range_step (i + step) stop step))
        = drop (i + step) xs"
      using 1 by simp
    have "take step (drop i xs) @ drop (i + step) xs = drop i xs"
      by (metis append_take_drop_id drop_drop add.commute)
    then show ?thesis using True 1(2) ih
      by (simp only: range_step.simps[of i stop step] if_True simp_thms list.map concat.simps)
  next
    case False
    then have "range_step i stop step = []" by (simp add: range_step.simps[of i stop step])
    then show ?thesis using False 1(3) by simp
  qed
qed

lemma translate_chunks_all:
  "translate_chunks tok model cs =
     (if \<forall>c\<in>set cs. generate model c \<noteq> None
      then Inr (map (\<lambda>c. decode tok (the (generate model c))) cs)
      else Inl BackendError)"
  by (induction cs) (auto split: option.splits sum.splits)

lemma chunks_of_positive:
  assumes "0 < m"
  shows "get_tokenized_chunks text tokenizer m =
     Inr (map (\<lambda>k. \<lparr>input_ids = take (nat m) (drop (k * nat m) (input_ids (tokenize tokenizer text))),
                      attention_mask = take (nat m) (drop (k * nat m) (attention_mask (tokenize tokenizer text)))\<rparr>)
            [0 ..< (length (input_ids (tokenize tokenizer text)) + nat m - 1) div nat m])"
  using assms by (simp add: get_tokenized_chunks_def Let_def range_step_eq comp_def)

section \<open>Facts about the orchestrator\<close>

lemma load_single:
  "load_dataset_full E D dest_lang [s0 # mids] =
     (case D (translated_file E s0 dest_lang mids) of
        None \<Rightarrow> Inl (FileNotFoundError (''File not found: '' @ translated_file E s0 dest_lang mids))
      | Some c \<Rightarrow> Inr c)"
  by (simp add: load_dataset_full_def translated_file_def split: option.splits)

lemma cache_file_full:
  "cache_file E (src # mids @ [dest]) (Suc (length mids)) = translated_file E src dest mids"
  by (simp add: cache_file_def nth_append)

lemma find_cached_spec:
  "\<exists>r start. find_cached E D chain ds k = Inr (r, start) \<and> r \<le> k
     \<and> (\<forall>j. r < j \<and> j \<le> k \<longrightarrow> D (cache_file E chain j) = None)
     \<and> (if r = 0 then start = ds
         else \<exists>c. D (cache_file E chain r) = Some c \<and> start = dataset_from_dict c)"
proof (induction k)
  case 0
  show ?case by simp
next
  case (Suc k)
  show ?case
  proof (cases "D (cache_file E chain (Suc k))")
    case None
    then have "find_cached E D chain ds (Suc k) = find_cached E D chain ds k"
      by (simp add: cache_file_def translated_file_def)
    moreover from Suc obtain r start where
      "find_cached E D chain ds k = Inr (r, start)" "r \<le> k"
      "\<forall>j. r < j \<and> j \<le> k \<longrightarrow> D (cache_file E chain j) = None"
      "if r = 0 then start = ds
       else \<exists>c. D (cache_file E chain r) = Some c \<and> start = dataset_from_dict c"
      by blast
    ultimately show ?thesis using None
      by (intro exI[of _ r] exI[of _ start]) (auto simp: le_Suc_eq)
  next
    case (Some c)
    then have "find_cached E D chain ds (Suc k) = Inr (Suc k, dataset_from_dict c)"
      by (simp add: cache_file_def translated_file_def load_single[unfolded translated_file_def])
    then show ?thesis using Some by auto
  qed
qed

lemma translate_elements_ok:
  "translate_elements chain i tok m ds = (Inr ds', evs) \<Longrightarrow>
     evs = map (\<lambda>e. TranslateText (elem_text e)) ds
   \<and> map elem_id ds' = map (\<lambda>e. lineage_id (take (i + 2) chain) (elem_id e)) ds
   \<and> map elem_category ds' = map elem_category ds
   \<and> map (\<lambda>e. Inr (elem_text e)) ds' = map (\<lambda>e. translate_text (elem_text e) tok m) ds"
proof (induction ds arbitrary: ds' evs)
  case Nil
  then show ?case by simp
next
  case (Cons a ds)
  then show ?case
    by (auto simp: Let_def lineage_id_def hd_str_split split: sum.splits prod.splits)
qed

lemma translate_elements_events:
  "translate_elements chain i tok m ds = (r, evs) \<Longrightarrow>
     filter is_write evs = [] \<and> filter is_load evs = []"
proof (induction ds arbitrary: r evs)
  case Nil
  then show ?case by simp
next
  case (Cons a ds)
  then show ?case
    by (auto simp: Let_def split: sum.splits prod.splits)
qed

lemma translate_hop_fail:
  "translate_hop E chain i ds D = (Inl e, D', evs) \<Longrightarrow>
     D' = D \<and> filter is_write evs = [] \<and> filter is_load evs = [hop_load chain i]"
  by (auto simp: translate_hop_def Let_def hop_load_def split: sum.splits prod.splits
      dest: translate_elements_events)

lemma translate_hop_ok:
  "translate_hop E chain i ds D = (Inr ds', D', evs) \<Longrightarrow>
     D' = D(cache_file E chain (i + 1) \<mapsto> dataset_to_dict ds')
   \<and> evs = hop_load chain i # map (\<lambda>e. TranslateText (elem_text e)) ds
             @ [WriteFile (cache_file E chain (i + 1))]
   \<and> map elem_id ds' = map (\<lambda>e. lineage_id (take (i + 2) chain) (elem_id e)) ds
   \<and> (\<exists>model tokenizer.
         load_translation_model E (chain ! i) (chain ! (i + 1)) = Inr (model, tokenizer)
       \<and> map (\<lambda>e. Inr (elem_text e)) ds' = map (\<lambda>e. translate_text (elem_text e) tokenizer model) ds)"
  by (auto simp: translate_hop_def Let_def hop_load_def cache_file_def translated_file_def
      split: sum.splits prod.splits dest!: translate_elements_ok)

lemma lineage_id_again: "lineage_id langs (lineage_id langs' i) = lineage_id langs i"
proof -
  have "takeWhile (\<lambda>c. c \<noteq> CHR ''_'') (takeWhile (\<lambda>c. c \<noteq> CHR ''_'') i @ CHR ''_'' # rest)
      = takeWhile (\<lambda>c. c \<noteq> CHR ''_'') i" for rest
    by (induction i) simp_all
  then show ?thesis by (simp add: lineage_id_def)
qed

lemma translate_hops_loads:
  "translate_hops E chain idxs ds D = (r, D', evs) \<Longrightarrow>
     prefix (filter is_load evs) (map (hop_load chain) idxs)
   \<and> ((\<exists>ds'. r = Inr ds') \<longrightarrow> filter is_load evs = map (hop_load chain) idxs)"
proof (induction idxs arbitrary: ds D r D' evs)
  case Nil
  then show ?case by simp
next
  case (Cons i idxs)
  show ?case
  proof (cases "translate_hop E chain i ds D")
    case (fields r1 D1 evs1)
    show ?thesis
    proof (cases r1)
      case (Inl e)
      then have "filter is_load evs1 = [hop_load chain i]"
        using translate_hop_fail fields by blast
      then show ?thesis using Cons.prems fields Inl by auto
    next
      case (Inr ds1)
      then have l1: "filter is_load evs1 = [hop_load chain i]"
        using translate_hop_ok[of E chain i ds D ds1 D1 evs1] fields by (simp add: hop_load_def)
      obtain r2 D2 evs2 where rest: "translate_hops E chain idxs ds1 D1 = (r2, D2, evs2)"
        by (cases "translate_hops E chain idxs ds1 D1") auto
      have "r = r2" "evs = evs1 @ evs2" using Cons.prems fields Inr rest by auto
      then show ?thesis using Cons.IH[OF rest] l1 by auto
    qed
  qed
qed

lemma translate_hops_fail_split:
  "translate_hops E chain idxs ds D = (Inl e, D', evs) \<Longrightarrow>
     \<exists>done k rest mid evs_done evs_fail.
       idxs = done @ k # rest
     \<and> translate_hops E chain done ds D = (Inr mid, D', evs_done)
     \<and> translate_hop E chain k mid D' = (Inl e, D', evs_fail)
     \<and> evs = evs_done @ evs_fail"
proof (induction idxs arbitrary: ds D evs)
  case Nil
  then show ?case by simp
next
  case (Cons i idxs)
  show ?case
  proof (cases "translate_hop E chain i ds D")
    case (fields r1 D1 evs1)
    show ?thesis
    proof (cases r1)
      case (Inl e1)
      then have "D1 = D" using translate_hop_fail fields by blast
      then have "i # idxs = [] @ i # idxs
          \<and> translate_hops E chain [] ds D = (Inr ds, D', [])
          \<and> translate_hop E chain i ds D' = (Inl e, D', evs) \<and> evs = [] @ evs"
        using Cons.prems fields Inl by auto
      then show ?thesis by blast
    next
      case (Inr ds1)
      obtain r2 D2 evs2 where rest: "translate_hops E chain idxs ds1 D1 = (r2, D2, evs2)"
        by (cases "translate_hops E chain idxs ds1 D1") auto
      then have eq: "r2 = Inl e" "D2 = D'" "evs = evs1 @ evs2"
        using Cons.prems fields Inr by auto
      from Cons.IH[OF rest[unfolded eq(1,2)]] obtain "done" k rest' mid evs_done evs_fail where
        s: "idxs = done @ k # rest'"
           "translate_hops E chain done ds1 D1 = (Inr mid, D', evs_done)"
           "translate_hop E chain k mid D' = (Inl e, D', evs_fail)"
           "evs2 = evs_done @ evs_fail"
        by blast
      have "i # idxs = (i # done) @ k # rest'
          \<and> translate_hops E chain (i # done) ds D = (Inr mid, D', evs1 @ evs_done)
          \<and> translate_hop E chain k mid D' = (Inl e, D', evs_fail)
          \<and> evs = (evs1 @ evs_done) @ evs_fail"
        using s eq fields Inr by simp
      then show ?thesis by blast
    qed
  qed
qed

lemma translate_hops_ok:
  "translate_hops E chain idxs ds D = (Inr ds', D', evs) \<Longrightarrow>
     filter is_write evs = map (\<lambda>j. WriteFile (cache_file E chain (j + 1))) idxs
   \<and> (\<forall>j \<in> set idxs. D' (cache_file E chain (j + 1)) \<noteq> None)
   \<and> (\<forall>p. D p \<noteq> None \<longrightarrow> D' p \<noteq> None)
   \<and> (\<forall>p. p \<notin> (\<lambda>j. cache_file E chain (j + 1)) ` set idxs \<longrightarrow> D' p = D p)
   \<and> (idxs \<noteq> [] \<longrightarrow>
        D' (cache_file E chain (last idxs + 1)) = Some (dataset_to_dict ds')
      \<and> map elem_id ds' = map (\<lambda>e. lineage_id (take (last idxs + 2) chain) (elem_id e)) ds)"
proof (induction idxs arbitrary: ds D evs)
  case Nil
  then show ?case by simp
next
  case (Cons i idxs)
  obtain r1 D1 evs1 where hop: "translate_hop E chain i ds D = (r1, D1, evs1)"
    by (cases "translate_hop E chain i ds D") auto
  obtain ds1 where r1: "r1 = Inr ds1"
    using Cons.prems hop by (cases r1) auto
  obtain r2 D2 evs2 where rest: "translate_hops E chain idxs ds1 D1 = (r2, D2, evs2)"
    by (cases "translate_hops E chain idxs ds1 D1") auto
  have eq: "r2 = Inr ds'" "D2 = D'" "evs = evs1 @ evs2"
    using Cons.prems hop r1 rest by auto
  note h = translate_hop_ok[OF hop[unfolded r1]]
  note ih = Cons.IH[OF rest[unfolded eq(1,2)]]
  have w1: "filter is_write evs1 = [WriteFile (cache_file E chain (i + 1))]"
    using h by (simp add: hop_load_def)
  have D1: "D1 = D(cache_file E chain (i + 1) \<mapsto> dataset_to_dict ds1)"
    using h by simp
  have a: "filter is_write evs = map (\<lambda>j. WriteFile (cache_file E chain (j + 1))) (i # idxs)"
    using ih w1 eq by simp
  have b: "\<forall>j \<in> set (i # idxs). D' (cache_file E chain (j + 1)) \<noteq> None"
    using ih D1 by auto
  have c: "\<forall>p. D p \<noteq> None \<longrightarrow> D' p \<noteq> None"
    using ih D1 by auto
  have d: "\<forall>p. p \<notin> (\<lambda>j. cache_file E chain (j + 1)) ` set (i # idxs) \<longrightarrow> D' p = D p"
    using ih D1 by auto
  have e: "D' (cache_file E chain (last (i # idxs) + 1)) = Some (dataset_to_dict ds')
      \<and> map elem_id ds' = map (\<lambda>e. lineage_id (take (last (i # idxs) + 2) chain) (elem_id e)) ds"
  proof (cases "idxs = []")
    case True
    then have "ds1 = ds'" "D' = D1" using rest eq by simp_all
    then show ?thesis using True h by simp
  next
    case False
    have "map elem_id ds' = map (\<lambda>e. lineage_id (take (last idxs + 2) chain) (elem_id e)) ds1"
      using ih False by simp
    also have "\<dots> = map (lineage_id (take (last idxs + 2) chain)) (map elem_id ds1)"
      by simp
    also have "map elem_id ds1 = map (\<lambda>e. lineage_id (take (i + 2) chain) (elem_id e)) ds"
      using h by simp
    finally have "map elem_id ds' = map (\<lambda>e. lineage_id (take (last idxs + 2) chain) (elem_id e)) ds"
      by (simp add: lineage_id_again)
    then show ?thesis using ih False by simp
  qed
  show ?case using a b c d e by blast
qed

lemma translate_elements_succeeds_iff:
  "(\<exists>ds'. fst (translate_elements chain i tok m ds) = Inr ds') \<longleftrightarrow>
     (\<forall>x \<in> set ds. \<exists>t. translate_text (elem_text x) tok m = Inr t)"
proof (induction ds)
  case Nil
  show ?case by simp
next
  case (Cons a ds)
  show ?case
  proof (cases "translate_text (elem_text a) tok m")
    case (Inl e)
    then show ?thesis by (simp add: Let_def)
  next
    case (Inr t)
    obtain r evs where rest: "translate_elements chain i tok m ds = (r, evs)"
      by (cases "translate_elements chain i tok m ds") auto
    show ?thesis
    proof (cases r)
      case (Inl e)
      then show ?thesis using Cons.IH Inr rest by (simp add: Let_def)
    next
      case r: (Inr dn)
      then show ?thesis using Cons.IH Inr rest by (simp add: Let_def)
    qed
  qed
qed

lemma translate_hop_succeeds_iff:
  "(\<exists>ds'. fst (translate_hop E chain i ds D) = Inr ds') \<longleftrightarrow>
     (\<exists>model tokenizer.
        load_translation_model E (chain ! i) (chain ! (i + 1)) = Inr (model, tokenizer)
      \<and> (\<forall>x \<in> set ds. \<exists>t. translate_text (elem_text x) tokenizer model = Inr t))"
proof (cases "load_translation_model E (chain ! i) (chain ! (i + 1))")
  case (Inl e)
  then show ?thesis by (simp add: translate_hop_def Let_def)
next
  case (Inr mt)
  obtain model tokenizer where mt: "mt = (model, tokenizer)" by (cases mt) auto
  obtain r evs where el: "translate_elements chain i tokenizer model ds = (r, evs)"
    by (cases "translate_elements chain i tokenizer model ds") auto
  have "(\<exists>ds'. fst (translate_hop E chain i ds D) = Inr ds') \<longleftrightarrow> (\<exists>ds'. r = Inr ds')"
    using Inr mt el by (cases r) (simp_all add: translate_hop_def Let_def)
  also have "\<dots> \<longleftrightarrow> (\<forall>x \<in> set ds. \<exists>t. translate_text (elem_text x) tokenizer model = Inr t)"
    using translate_elements_succeeds_iff[of chain i tokenizer model ds] el by simp
  finally show ?thesis using Inr mt by simp
qed

lemma translate_hops_append:
  "translate_hops E chain (xs @ ys) ds D =
     (case translate_hops E chain xs ds D of
        (Inl e, D', evs) \<Rightarrow> (Inl e, D', evs)
      | (Inr mid, D', evs) \<Rightarrow>
          (case translate_hops E chain ys mid D' of (r, D'', evs') \<Rightarrow> (r, D'', evs @ evs')))"
proof (induction xs arbitrary: ds D)
  case Nil
  show ?case by (simp split: prod.splits)
next
  case (Cons x xs)
  show ?case
    by (simp add: Cons.IH split: prod.splits sum.splits)
qed

lemma translate_hops_fails_at:
  assumes "translate_hops E chain done ds D = (Inr mid, Dk, evs_done)"
    and "translate_hop E chain k mid Dk = (Inl e, Dk', evs_fail)"
  shows "translate_hops E chain (done @ k # rest) ds D = (Inl e, Dk, evs_done @ evs_fail)"
proof -
  have "Dk' = Dk" using translate_hop_fail[OF assms(2)] by simp
  then show ?thesis using assms by (simp add: translate_hops_append)
qed

lemma translate_hop_element_failure:
  assumes "load_translation_model E (chain ! i) (chain ! (i + 1)) = Inr (model, tokenizer)"
    and "x \<in> set ds"
    and "translate_text (elem_text x) tokenizer model = Inl err"
  shows "\<exists>e' evs. translate_hop E chain i ds D = (Inl e', D, evs) \<and> filter is_write evs = []"
proof -
  obtain res D' evs where hop: "translate_hop E chain i ds D = (res, D', evs)"
    by (cases "translate_hop E chain i ds D") auto
  have "\<forall>t. translate_text (elem_text x) tokenizer model \<noteq> Inr t"
    using assms(3) by simp
  then have "\<not> (\<forall>y \<in> set ds. \<exists>t. translate_text (elem_text y) tokenizer model = Inr t)"
    using assms(2) by blast
  then have "\<not> (\<exists>ds'. fst (translate_hop E chain i ds D) = Inr ds')"
    unfolding translate_hop_succeeds_iff using assms(1) by simp
  then obtain e' where "res = Inl e'" using hop by (cases res) auto
  then show ?thesis using translate_hop_fail[of E chain i ds D e' D' evs] hop by simp
qed

lemma get_translated_dataset_hit:
  "D (translated_file E src dest mids) = Some c \<Longrightarrow>
     get_translated_dataset E D src dest mids = (Inr (dataset_from_dict c), D, [])"
  by (auto simp: get_translated_dataset_def load_single)

lemma get_translated_dataset_miss:
  "D (translated_file E src dest mids) = None \<Longrightarrow>
     get_translated_dataset E D src dest mids =
       (if src = dest \<and> mids = []
        then (Inl (FileNotFoundError (''File not found: '' @ translated_file E src dest mids)), D, [])
        else translate_dataset E D src dest mids)"
  by (auto simp: get_translated_dataset_def load_single)

lemma translate_dataset_no_base:
  "D (translated_file E src src []) = None \<Longrightarrow>
     translate_dataset E D src dest mids =
       (Inl (FileNotFoundError (''File not found: '' @ translated_file E src src [])), D, [])"
  by (simp add: translate_dataset_def load_single)

lemma translate_dataset_invalid:
  "D (translated_file E src src []) = Some b \<Longrightarrow> \<not> (mids = [] \<and> src = dest) \<Longrightarrow>
   has_equal_hop ([src] @ mids @ [dest]) \<Longrightarrow>
     translate_dataset E D src dest mids =
       (Inl (ValueError ''Source and destination languages must be different for each transition.''),
        D, [])"
  by (simp add: translate_dataset_def load_single Let_def)

lemma translate_dataset_run:
  "D (translated_file E src src []) = Some b \<Longrightarrow> \<not> (mids = [] \<and> src = dest) \<Longrightarrow>
   \<not> has_equal_hop ([src] @ mids @ [dest]) \<Longrightarrow>
   find_cached E D ([src] @ mids @ [dest]) (dataset_from_dict b) (length ([src] @ mids @ [dest]) - 1)
     = Inr (r, start) \<Longrightarrow>
     translate_dataset E D src dest mids =
       translate_hops E ([src] @ mids @ [dest]) [r ..< length ([src] @ mids @ [dest]) - 1] start D"
  by (auto simp add: translate_dataset_def load_single Let_def simp del: find_cached.simps upt_Suc)

lemma resume_point:
  assumes miss: "D (translated_file E src dest mids) = None"
    and base: "D (translated_file E src src []) = Some b"
    and valid: "\<not> has_equal_hop ([src] @ mids @ [dest])"
  shows "\<exists>r start.
      find_cached E D ([src] @ mids @ [dest]) (dataset_from_dict b)
        (length ([src] @ mids @ [dest]) - 1) = Inr (r, start)
    \<and> r < length ([src] @ mids @ [dest]) - 1
    \<and> (\<forall>j. r < j \<and> j < length ([src] @ mids @ [dest]) \<longrightarrow>
          D (cache_file E ([src] @ mids @ [dest]) j) = None)
    \<and> (if r = 0 then start = dataset_from_dict b
        else \<exists>c. D (cache_file E ([src] @ mids @ [dest]) r) = Some c \<and> start = dataset_from_dict c)
    \<and> get_translated_dataset E D src dest mids =
        translate_hops E ([src] @ mids @ [dest]) [r ..< length ([src] @ mids @ [dest]) - 1] start D"
proof -
  let ?chain = "[src] @ mids @ [dest]"
  have n: "length ?chain - 1 = Suc (length mids)" by simp
  have nd: "\<not> (mids = [] \<and> src = dest)" using miss base by auto
  from find_cached_spec[of E D ?chain "dataset_from_dict b" "Suc (length mids)"]
  obtain r start where
    f: "find_cached E D ?chain (dataset_from_dict b) (Suc (length mids)) = Inr (r, start)"
    and le: "r \<le> Suc (length mids)"
    and above: "\<forall>j. r < j \<and> j \<le> Suc (length mids) \<longrightarrow> D (cache_file E ?chain j) = None"
    and at: "if r = 0 then start = dataset_from_dict b
             else \<exists>c. D (cache_file E ?chain r) = Some c \<and> start = dataset_from_dict c"
    by blast
  have full: "cache_file E ?chain (Suc (length mids)) = translated_file E src dest mids"
    using cache_file_full[of E src mids dest] by simp
  have "r \<noteq> Suc (length mids)"
  proof
    assume "r = Suc (length mids)"
    then have "\<exists>c. D (cache_file E ?chain (Suc (length mids))) = Some c" using at by auto
    then show False using miss full by simp
  qed
  then have lt: "r < length ?chain - 1" using le by simp
  have ab: "\<forall>j. r < j \<and> j < length ?chain \<longrightarrow> D (cache_file E ?chain j) = None"
    using above by simp
  have "get_translated_dataset E D src dest mids = translate_dataset E D src dest mids"
    using get_translated_dataset_miss[of D E src dest mids, OF miss] nd by auto
  also have "\<dots> = translate_hops E ?chain [r ..< length ?chain - 1] start D"
    using translate_dataset_run[of D E src b mids dest, OF base nd valid] f n by (simp del: find_cached.simps upt_Suc)
  finally show ?thesis using f lt ab at n
    by (intro exI[of _ r] exI[of _ start]) (simp del: find_cached.simps upt_Suc)
qed

lemma success_needs_base:
  assumes miss: "D (translated_file E src dest mids) = None"
    and ok: "get_translated_dataset E D src dest mids = (Inr ds', D', evs)"
  shows "\<exists>b. D (translated_file E src src []) = Some b \<and> \<not> has_equal_hop ([src] @ mids @ [dest])"
proof -
  have nd: "\<not> (src = dest \<and> mids = [])" using get_translated_dataset_miss[of D E src dest mids, OF miss] ok by auto
  then have td: "translate_dataset E D src dest mids = (Inr ds', D', evs)"
    using get_translated_dataset_miss[of D E src dest mids, OF miss] ok by auto
  obtain b where b: "D (translated_file E src src []) = Some b"
    using td translate_dataset_no_base[of D E src dest mids]
    by (cases "D (translated_file E src src [])") auto
  have "\<not> has_equal_hop ([src] @ mids @ [dest])"
    using td translate_dataset_invalid[of D E src b mids dest, OF b] nd by auto
  then show ?thesis using b by blast
qed

section \<open>The claims\<close>

text \<open>
  Claim C1, as stated, fails. A call that misses the full-chain cache does not always
  resume from the longest cached prefix: with the prefix of the first hop cached and the
  base dataset missing, the call raises \<^verbatim>\<open>FileNotFoundError\<close> before the search; and
  for a chain with two equal consecutive languages, whose first prefix is the base
  dataset itself, it raises \<^verbatim>\<open>ValueError\<close>. No model is loaded in either case.
\<close>

theorem resume_skipped_on_early_exception:
  "ex_disk_no_base (translated_file ex_env ''en'' ''es'' [''fr'']) = None
 \<and> ex_disk_no_base (cache_file ex_env ([''en''] @ [''fr''] @ [''es'']) 1) =
     Some [JsonDict ''7_en_fr'' ''ba'' ''CRITICAL'']
 \<and> fst (get_translated_dataset ex_env ex_disk_no_base ''en'' ''es'' [''fr'']) =
     Inl (FileNotFoundError ''File not found: cache/en-en.json'')
 \<and> snd (snd (get_translated_dataset ex_env ex_disk_no_base ''en'' ''es'' [''fr''])) = []
 \<and> ex_disk_base (translated_file ex_env ''en'' ''es'' [''en'']) = None
 \<and> ex_disk_base (cache_file ex_env ([''en''] @ [''en''] @ [''es'']) 1) =
     Some [JsonDict ''7'' ''ab'' ''CRITICAL'']
 \<and> fst (get_translated_dataset ex_env ex_disk_base ''en'' ''es'' [''en'']) =
     Inl (ValueError ''Source and destination languages must be different for each transition.'')
 \<and> snd (snd (get_translated_dataset ex_env ex_disk_base ''en'' ''es'' [''en''])) = []"
  by code_simp

text \<open>
  Claim C1, amended. When the cache file of the full chain is absent, the base dataset
  exists and no hop has equal languages, the search that counts down from the end of the
  chain gives the resume index \<open>r\<close>: no prefix longer than \<open>r\<close> has a cache file; for
  \<open>r > 0\<close> the prefix ending at \<open>r\<close> has one and its dataset is the start; for \<open>r = 0\<close>
  the start is the untranslated base dataset. The call is the hop loop from \<open>r\<close> on that
  start, and the models it loads are those of the hops from \<open>r\<close> on, in order, and no
  others.
\<close>

theorem resume_from_longest_cached_prefix:
  assumes "D (translated_file E src_lang dest_lang transition_langs) = None"
    and "D (translated_file E src_lang src_lang []) = Some base"
    and "\<not> has_equal_hop ([src_lang] @ transition_langs @ [dest_lang])"
  shows "\<exists>r start.
      find_cached E D ([src_lang] @ transition_langs @ [dest_lang]) (dataset_from_dict base)
        (length ([src_lang] @ transition_langs @ [dest_lang]) - 1) = Inr (r, start)
    \<and> r < length ([src_lang] @ transition_langs @ [dest_lang]) - 1
    \<and> (\<forall>j. r < j \<and> j < length ([src_lang] @ transition_langs @ [dest_lang]) \<longrightarrow>
          D (cache_file E ([src_lang] @ transition_langs @ [dest_lang]) j) = None)
    \<and> (if r = 0 then start = dataset_from_dict base
        else \<exists>c. D (cache_file E ([src_lang] @ transition_langs @ [dest_lang]) r) = Some c
               \<and> start = dataset_from_dict c)
    \<and> get_translated_dataset E D src_lang dest_lang transition_langs =
        translate_hops E ([src_lang] @ transition_langs @ [dest_lang])
          [r ..< length ([src_lang] @ transition_langs @ [dest_lang]) - 1] start D
    \<and> prefix (filter is_load (snd (snd (get_translated_dataset E D src_lang dest_lang transition_langs))))
        (map (hop_load ([src_lang] @ transition_langs @ [dest_lang]))
           [r ..< length ([src_lang] @ transition_langs @ [dest_lang]) - 1])"
proof -
  let ?chain = "[src_lang] @ transition_langs @ [dest_lang]"
  from resume_point[of D E src_lang dest_lang transition_langs base, OF assms]
  obtain r start where
    f: "find_cached E D ?chain (dataset_from_dict base) (length ?chain - 1) = Inr (r, start)"
    and lt: "r < length ?chain - 1"
    and ab: "\<forall>j. r < j \<and> j < length ?chain \<longrightarrow> D (cache_file E ?chain j) = None"
    and at: "if r = 0 then start = dataset_from_dict base
             else \<exists>c. D (cache_file E ?chain r) = Some c \<and> start = dataset_from_dict c"
    and g: "get_translated_dataset E D src_lang dest_lang transition_langs =
              translate_hops E ?chain [r ..< length ?chain - 1] start D"
    by blast
  obtain res D' evs where
    run: "translate_hops E ?chain [r ..< length ?chain - 1] start D = (res, D', evs)"
    by (cases "translate_hops E ?chain [r ..< length ?chain - 1] start D") auto
  have "prefix (filter is_load evs) (map (hop_load ?chain) [r ..< length ?chain - 1])"
    using translate_hops_loads[OF run] by blast
  then have p: "prefix (filter is_load (snd (snd (get_translated_dataset E D src_lang dest_lang
                   transition_langs))))
                 (map (hop_load ?chain) [r ..< length ?chain - 1])"
    unfolding g run by simp
  show ?thesis
    using f lt ab at g p by blast
qed

text \<open>An instance.\<close>

theorem resume_from_longest_cached_prefix_witness:
  "ex_disk_prefix (translated_file ex_env ''en'' ''es'' [''fr'']) = None
 \<and> ex_disk_prefix (translated_file ex_env ''en'' ''en'' []) = Some [JsonDict ''7'' ''ab'' ''CRITICAL'']
 \<and> \<not> has_equal_hop ([''en''] @ [''fr''] @ [''es''])
 \<and> find_cached ex_env ex_disk_prefix ([''en''] @ [''fr''] @ [''es''])
       (dataset_from_dict [JsonDict ''7'' ''ab'' ''CRITICAL''])
       (length ([''en''] @ [''fr''] @ [''es'']) - 1) =
     Inr (1, [\<lparr>elem_id = ''7_en_fr'', elem_text = ''ba'', elem_category = ''CRITICAL''\<rparr>])
 \<and> snd (snd (get_translated_dataset ex_env ex_disk_prefix ''en'' ''es'' [''fr''])) =
     [LoadModel ''fr'' ''es'', TranslateText ''ba'', WriteFile ''cache/en-fr-es.json'']"
proof -
  have h1: "ex_disk_prefix (translated_file ex_env ''en'' ''es'' [''fr'']) = None"
    by code_simp
  have h2: "ex_disk_prefix (translated_file ex_env ''en'' ''en'' []) =
      Some [JsonDict ''7'' ''ab'' ''CRITICAL'']"
    by code_simp
  have h3: "\<not> has_equal_hop ([''en''] @ [''fr''] @ [''es''])"
    by code_simp
  have c1: "find_cached ex_env ex_disk_prefix ([''en''] @ [''fr''] @ [''es''])
       (dataset_from_dict [JsonDict ''7'' ''ab'' ''CRITICAL''])
       (length ([''en''] @ [''fr''] @ [''es'']) - 1) =
     Inr (1, [\<lparr>elem_id = ''7_en_fr'', elem_text = ''ba'', elem_category = ''CRITICAL''\<rparr>])"
    by code_simp
  have c2: "snd (snd (get_translated_dataset ex_env ex_disk_prefix ''en'' ''es'' [''fr''])) =
     [LoadModel ''fr'' ''es'', TranslateText ''ba'', WriteFile ''cache/en-fr-es.json'']"
    by code_simp
  from resume_from_longest_cached_prefix[of ex_disk_prefix ex_env "''en''" "''es''" "[''fr'']"
      "[JsonDict ''7'' ''ab'' ''CRITICAL'']", OF h1 h2 h3]
  show ?thesis using h1 h2 h3 c1 c2 by blast
qed

text \<open>
  Claim C2. A hop returns a dataset exactly when its model loads and the translation of
  every element succeeds; a failure while translating any element makes the hop fail,
  with the disk as it was and nothing written.
  A hop that returns has loaded its model, translated every element, and only then
  written its cache file, which holds the translated dataset; a hop that fails leaves the
  disk as it was and writes nothing. When the hop loop fails, the hops before the failing
  one have completed, the disk is the one they left, the files written are exactly
  theirs, each of them loads, and no file that existed before is gone. And when the hops
  before some hop complete and that hop fails, the hop loop fails there with the disk the
  completed hops left, whatever hops would follow.
\<close>

theorem failed_hop_persists_nothing:
  "((\<exists>ds'. fst (translate_hop E chain i ds D) = Inr ds') \<longleftrightarrow>
      (\<exists>model tokenizer.
         load_translation_model E (chain ! i) (chain ! (i + 1)) = Inr (model, tokenizer)
       \<and> (\<forall>x \<in> set ds. \<exists>t. translate_text (elem_text x) tokenizer model = Inr t)))
 \<and> (load_translation_model E (chain ! i) (chain ! (i + 1)) = Inr (model, tokenizer)
      \<and> x \<in> set ds \<and> translate_text (elem_text x) tokenizer model = Inl err \<longrightarrow>
       (\<exists>e' evs. translate_hop E chain i ds D = (Inl e', D, evs) \<and> filter is_write evs = []))
 \<and> (case translate_hop E chain i ds D of
       (Inr ds', D', evs) \<Rightarrow>
           D' = D(cache_file E chain (i + 1) \<mapsto> dataset_to_dict ds')
         \<and> evs = hop_load chain i # map (\<lambda>x. TranslateText (elem_text x)) ds
                   @ [WriteFile (cache_file E chain (i + 1))]
         \<and> (\<exists>model tokenizer.
               load_translation_model E (chain ! i) (chain ! (i + 1)) = Inr (model, tokenizer)
             \<and> map (\<lambda>x. Inr (elem_text x)) ds' =
                 map (\<lambda>x. translate_text (elem_text x) tokenizer model) ds)
     | (Inl e', D', evs) \<Rightarrow> D' = D \<and> filter is_write evs = [])
 \<and> (translate_hops E chain idxs first_ds D_first = (Inl e, D_last, evs_all) \<longrightarrow>
       (\<exists>done k rest mid evs_done evs_fail.
           idxs = done @ k # rest
         \<and> translate_hops E chain done first_ds D_first = (Inr mid, D_last, evs_done)
         \<and> translate_hop E chain k mid D_last = (Inl e, D_last, evs_fail)
         \<and> evs_all = evs_done @ evs_fail
         \<and> filter is_write evs_all = map (\<lambda>j. WriteFile (cache_file E chain (j + 1))) done
         \<and> (\<forall>j \<in> set done. \<exists>c.
               load_dataset_full E D_last (chain ! (j + 1))
                 [[chain ! 0] @ drop 1 (take (j + 1) chain)] = Inr c)
         \<and> (\<forall>p. D_first p \<noteq> None \<longrightarrow> D_last p \<noteq> None)))
 \<and> (translate_hops E chain finished first_ds D_first = (Inr reached, Dk, evs_finished)
      \<and> translate_hop E chain failing reached Dk = (Inl e, Dk', evs_failing) \<longrightarrow>
       translate_hops E chain (finished @ failing # later) first_ds D_first =
         (Inl e, Dk, evs_finished @ evs_failing))"
proof -
  have iff: "(\<exists>ds'. fst (translate_hop E chain i ds D) = Inr ds') \<longleftrightarrow>
      (\<exists>model tokenizer.
         load_translation_model E (chain ! i) (chain ! (i + 1)) = Inr (model, tokenizer)
       \<and> (\<forall>x \<in> set ds. \<exists>t. translate_text (elem_text x) tokenizer model = Inr t))"
    by (rule translate_hop_succeeds_iff)
  have el: "load_translation_model E (chain ! i) (chain ! (i + 1)) = Inr (model, tokenizer)
      \<and> x \<in> set ds \<and> translate_text (elem_text x) tokenizer model = Inl err \<longrightarrow>
       (\<exists>e' evs. translate_hop E chain i ds D = (Inl e', D, evs) \<and> filter is_write evs = [])"
    using translate_hop_element_failure[of E chain i model tokenizer x ds err D] by blast
  obtain res D' evs where hop: "translate_hop E chain i ds D = (res, D', evs)"
    by (cases "translate_hop E chain i ds D") auto
  have cs: "case translate_hop E chain i ds D of
       (Inr ds', D', evs) \<Rightarrow>
           D' = D(cache_file E chain (i + 1) \<mapsto> dataset_to_dict ds')
         \<and> evs = hop_load chain i # map (\<lambda>x. TranslateText (elem_text x)) ds
                   @ [WriteFile (cache_file E chain (i + 1))]
         \<and> (\<exists>model tokenizer.
               load_translation_model E (chain ! i) (chain ! (i + 1)) = Inr (model, tokenizer)
             \<and> map (\<lambda>x. Inr (elem_text x)) ds' =
                 map (\<lambda>x. translate_text (elem_text x) tokenizer model) ds)
     | (Inl e', D', evs) \<Rightarrow> D' = D \<and> filter is_write evs = []"
  proof (cases res)
    case (Inl e')
    then show ?thesis
      using translate_hop_fail[of E chain i ds D e' D' evs] hop by simp
  next
    case (Inr ds')
    then show ?thesis
      using translate_hop_ok[of E chain i ds D ds' D' evs] hop by simp
  qed
  have loop: "translate_hops E chain idxs first_ds D_first = (Inl e, D_last, evs_all) \<longrightarrow>
       (\<exists>done k rest mid evs_done evs_fail.
           idxs = done @ k # rest
         \<and> translate_hops E chain done first_ds D_first = (Inr mid, D_last, evs_done)
         \<and> translate_hop E chain k mid D_last = (Inl e, D_last, evs_fail)
         \<and> evs_all = evs_done @ evs_fail
         \<and> filter is_write evs_all = map (\<lambda>j. WriteFile (cache_file E chain (j + 1))) done
         \<and> (\<forall>j \<in> set done. \<exists>c.
               load_dataset_full E D_last (chain ! (j + 1))
                 [[chain ! 0] @ drop 1 (take (j + 1) chain)] = Inr c)
         \<and> (\<forall>p. D_first p \<noteq> None \<longrightarrow> D_last p \<noteq> None))"
  proof
    assume fail: "translate_hops E chain idxs first_ds D_first = (Inl e, D_last, evs_all)"
    from translate_hops_fail_split[OF fail]
    obtain "done" k rest mid evs_done evs_fail where
      s: "idxs = done @ k # rest"
         "translate_hops E chain done first_ds D_first = (Inr mid, D_last, evs_done)"
         "translate_hop E chain k mid D_last = (Inl e, D_last, evs_fail)"
         "evs_all = evs_done @ evs_fail"
      by blast
    note ok = translate_hops_ok[OF s(2)]
    have nw: "filter is_write evs_fail = []"
      using translate_hop_fail[OF s(3)] by simp
    have w: "filter is_write evs_all = map (\<lambda>j. WriteFile (cache_file E chain (j + 1))) done"
      using ok nw s(4) by simp
    have l: "\<forall>j \<in> set done. \<exists>c.
                 load_dataset_full E D_last (chain ! (j + 1))
                   [[chain ! 0] @ drop 1 (take (j + 1) chain)] = Inr c"
    proof
      fix j assume "j \<in> set done"
      then have "D_last (cache_file E chain (j + 1)) \<noteq> None" using ok by blast
      then show "\<exists>c. load_dataset_full E D_last (chain ! (j + 1))
                     [[chain ! 0] @ drop 1 (take (j + 1) chain)] = Inr c"
        by (auto simp: load_single cache_file_def)
    qed
    have m: "\<forall>p. D_first p \<noteq> None \<longrightarrow> D_last p \<noteq> None" using ok by blast
    show "\<exists>done k rest mid evs_done evs_fail.
           idxs = done @ k # rest
         \<and> translate_hops E chain done first_ds D_first = (Inr mid, D_last, evs_done)
         \<and> translate_hop E chain k mid D_last = (Inl e, D_last, evs_fail)
         \<and> evs_all = evs_done @ evs_fail
         \<and> filter is_write evs_all = map (\<lambda>j. WriteFile (cache_file E chain (j + 1))) done
         \<and> (\<forall>j \<in> set done. \<exists>c.
               load_dataset_full E D_last (chain ! (j + 1))
                 [[chain ! 0] @ drop 1 (take (j + 1) chain)] = Inr c)
         \<and> (\<forall>p. D_first p \<noteq> None \<longrightarrow> D_last p \<noteq> None)"
      using s w l m by blast
  qed
  have conv: "translate_hops E chain finished first_ds D_first = (Inr reached, Dk, evs_finished)
      \<and> translate_hop E chain failing reached Dk = (Inl e, Dk', evs_failing) \<longrightarrow>
       translate_hops E chain (finished @ failing # later) first_ds D_first =
         (Inl e, Dk, evs_finished @ evs_failing)"
    using translate_hops_fails_at[of E chain finished first_ds D_first reached Dk evs_finished failing e Dk'
        evs_failing later]
    by blast
  show ?thesis using iff el cs loop conv by (intro conjI)
qed

text \<open>An instance: the model of the second hop fails on the element.\<close>

theorem failed_hop_persists_nothing_witness:
  "translate_text ''xy'' ex_tokenizer ex_broken_model = Inl BackendError
 \<and> fst (translate_hop ex_env_broken [''en'', ''fr'', ''es''] 1
          [\<lparr>elem_id = ''7_en_fr'', elem_text = ''xy'', elem_category = ''CRITICAL''\<rparr>]
          ex_disk_base) = Inl BackendError
 \<and> fst (snd (translate_hop ex_env_broken [''en'', ''fr'', ''es''] 1
          [\<lparr>elem_id = ''7_en_fr'', elem_text = ''xy'', elem_category = ''CRITICAL''\<rparr>]
          ex_disk_base)) = ex_disk_base
 \<and> snd (snd (translate_hop ex_env_broken [''en'', ''fr'', ''es''] 1
          [\<lparr>elem_id = ''7_en_fr'', elem_text = ''xy'', elem_category = ''CRITICAL''\<rparr>]
          ex_disk_base)) = [LoadModel ''fr'' ''es'', TranslateText ''xy'']
 \<and> fst (translate_hops ex_env_broken [''en'', ''fr'', ''es''] [0] 
          [\<lparr>elem_id = ''7'', elem_text = ''ab'', elem_category = ''CRITICAL''\<rparr>]
          ex_disk_base) =
     Inr [\<lparr>elem_id = ''7_en_fr'', elem_text = ''xy'', elem_category = ''CRITICAL''\<rparr>]
 \<and> snd (snd (translate_hops ex_env_broken [''en'', ''fr'', ''es''] [0] 
          [\<lparr>elem_id = ''7'', elem_text = ''ab'', elem_category = ''CRITICAL''\<rparr>]
          ex_disk_base)) =
     [LoadModel ''en'' ''fr'', TranslateText ''ab'', WriteFile ''cache/en-fr.json'']
 \<and> translate_hops ex_env_broken [''en'', ''fr'', ''es''] ([0] @ 1 # [])
          [\<lparr>elem_id = ''7'', elem_text = ''ab'', elem_category = ''CRITICAL''\<rparr>]
          ex_disk_base =
     (Inl BackendError,
      fst (snd (translate_hops ex_env_broken [''en'', ''fr'', ''es''] [0] 
          [\<lparr>elem_id = ''7'', elem_text = ''ab'', elem_category = ''CRITICAL''\<rparr>]
          ex_disk_base)),
      [LoadModel ''en'' ''fr'', TranslateText ''ab'', WriteFile ''cache/en-fr.json'',
       LoadModel ''fr'' ''es'', TranslateText ''xy''])
 \<and> fst (snd (translate_hops ex_env_broken [''en'', ''fr'', ''es''] ([0] @ 1 # [])
          [\<lparr>elem_id = ''7'', elem_text = ''ab'', elem_category = ''CRITICAL''\<rparr>]
          ex_disk_base)) ''cache/en-fr.json'' = Some [JsonDict ''7_en_fr'' ''xy'' ''CRITICAL'']
 \<and> fst (snd (translate_hops ex_env_broken [''en'', ''fr'', ''es''] ([0] @ 1 # [])
          [\<lparr>elem_id = ''7'', elem_text = ''ab'', elem_category = ''CRITICAL''\<rparr>]
          ex_disk_base)) ''cache/en-fr-es.json'' = None"
proof -
  let ?E = ex_env_broken
  let ?chain = "[''en'', ''fr'', ''es'']"
  let ?ds0 = "[\<lparr>elem_id = ''7'', elem_text = ''ab'', elem_category = ''CRITICAL''\<rparr>]"
  let ?ds1 = "[\<lparr>elem_id = ''7_en_fr'', elem_text = ''xy'', elem_category = ''CRITICAL''\<rparr>]"
  let ?hop = "translate_hop ?E ?chain 1 ?ds1 ex_disk_base"
  let ?first = "translate_hops ?E ?chain [0] ?ds0 ex_disk_base"
  let ?Dk = "fst (snd ?first)"
  let ?fail = "translate_hop ?E ?chain 1 ?ds1 ?Dk"
  let ?run = "translate_hops ?E ?chain ([0] @ 1 # []) ?ds0 ex_disk_base"
  have tt: "translate_text ''xy'' ex_tokenizer ex_broken_model = Inl BackendError"
    by code_simp
  have ld: "load_translation_model ?E (?chain ! 1) (?chain ! (1 + 1)) =
      Inr (ex_broken_model, ex_tokenizer)"
    by (simp add: load_translation_model_def ex_env_broken_def ex_env_def)
  have el: "\<lparr>elem_id = ''7_en_fr'', elem_text = ''xy'', elem_category = ''CRITICAL''\<rparr> \<in> set ?ds1
      \<and> translate_text
           (elem_text \<lparr>elem_id = ''7_en_fr'', elem_text = ''xy'', elem_category = ''CRITICAL''\<rparr>)
           ex_tokenizer ex_broken_model = Inl BackendError"
    using tt by simp
  have a: "fst ?hop = Inl BackendError" by code_simp
  have a': "snd (snd ?hop) = [LoadModel ''fr'' ''es'', TranslateText ''xy'']" by code_simp
  have b: "fst ?first = Inr ?ds1" by code_simp
  have b': "snd (snd ?first) =
      [LoadModel ''en'' ''fr'', TranslateText ''ab'', WriteFile ''cache/en-fr.json'']"
    by code_simp
  have c: "fst ?fail = Inl BackendError" by code_simp
  have c': "snd (snd ?fail) = [LoadModel ''fr'' ''es'', TranslateText ''xy'']" by code_simp
  have d: "fst ?run = Inl BackendError" by code_simp
  have f1: "fst (snd ?run) ''cache/en-fr.json'' = Some [JsonDict ''7_en_fr'' ''xy'' ''CRITICAL'']"
    by code_simp
  have f2: "fst (snd ?run) ''cache/en-fr-es.json'' = None" by code_simp
  have hop_eq: "?hop = (Inl BackendError, fst (snd ?hop), snd (snd ?hop))"
    using a by (metis prod.collapse)
  have first_eq: "?first = (Inr ?ds1, ?Dk, snd (snd ?first))"
    using b by (metis prod.collapse)
  have fail_eq: "?fail = (Inl BackendError, fst (snd ?fail), snd (snd ?fail))"
    using c by (metis prod.collapse)
  have run_eq: "?run = (Inl BackendError, fst (snd ?run), snd (snd ?run))"
    using d by (metis prod.collapse)
  note t = failed_hop_persists_nothing[where E = ?E and chain = ?chain and i = 1 and ds = ?ds1 and D = ex_disk_base
      and idxs = "[0] @ 1 # []" and first_ds = ?ds0 and D_first = ex_disk_base and e = BackendError
      and D_last = "fst (snd ?run)" and evs_all = "snd (snd ?run)"
      and finished = "[0]" and reached = ?ds1 and Dk = ?Dk and evs_finished = "snd (snd ?first)"
      and failing = 1 and Dk' = "fst (snd ?fail)" and evs_failing = "snd (snd ?fail)"
      and later = "[]" and model = ex_broken_model and tokenizer = ex_tokenizer
      and x = "\<lparr>elem_id = ''7_en_fr'', elem_text = ''xy'', elem_category = ''CRITICAL''\<rparr>"
      and err = BackendError]
  from t have "case ?hop of
       (Inr ds', D', evs) \<Rightarrow>
           D' = ex_disk_base(cache_file ?E ?chain (1 + 1) \<mapsto> dataset_to_dict ds')
         \<and> evs = hop_load ?chain 1 # map (\<lambda>x. TranslateText (elem_text x)) ?ds1
                   @ [WriteFile (cache_file ?E ?chain (1 + 1))]
         \<and> (\<exists>model tokenizer.
               load_translation_model ?E (?chain ! 1) (?chain ! (1 + 1)) = Inr (model, tokenizer)
             \<and> map (\<lambda>x. Inr (elem_text x)) ds' =
                 map (\<lambda>x. translate_text (elem_text x) tokenizer model) ?ds1)
     | (Inl e', D', evs) \<Rightarrow> D' = ex_disk_base \<and> filter is_write evs = []"
    by (rule conjunct1[OF conjunct2[OF conjunct2]])
  then have nowrite: "filter is_write (snd (snd ?hop)) = []"
    by (cases ?hop) (use a in auto)
  from t[THEN conjunct2, THEN conjunct1] ld el
  have "\<exists>e' evs. ?hop = (Inl e', ex_disk_base, evs) \<and> filter is_write evs = []"
    by blast
  then have unchanged: "fst (snd ?hop) = ex_disk_base"
    by auto
  from t[THEN conjunct2, THEN conjunct2, THEN conjunct2, THEN conjunct2] first_eq fail_eq
  have whole: "?run = (Inl BackendError, ?Dk, snd (snd ?first) @ snd (snd ?fail))"
    by blast
  then have whole': "?run = (Inl BackendError, ?Dk,
      [LoadModel ''en'' ''fr'', TranslateText ''ab'', WriteFile ''cache/en-fr.json'',
       LoadModel ''fr'' ''es'', TranslateText ''xy''])"
    unfolding b' c' by simp
  show ?thesis
    using tt a unchanged a' b b' whole' f1 f2 by (intro conjI)
qed

text \<open>
  Claim C3. After a call that returned a dataset, the same call on the disk it left
  returns the same dataset, leaves the disk unchanged and causes no event: no model load,
  no translation, no write.
\<close>

theorem second_call_is_cache_hit:
  assumes "get_translated_dataset E D src_lang dest_lang transition_langs = (Inr ds, D', evs)"
  shows "get_translated_dataset E D' src_lang dest_lang transition_langs = (Inr ds, D', [])"
proof (cases "D (translated_file E src_lang dest_lang transition_langs)")
  case (Some c)
  then show ?thesis
    using assms get_translated_dataset_hit[of D E src_lang dest_lang transition_langs c] by simp
next
  case None
  let ?chain = "[src_lang] @ transition_langs @ [dest_lang]"
  from success_needs_base[OF None assms] obtain b where
    b: "D (translated_file E src_lang src_lang []) = Some b" and v: "\<not> has_equal_hop ?chain"
    by blast
  from resume_point[of D E src_lang dest_lang transition_langs b, OF None b v]
  obtain r start where
    lt: "r < length ?chain - 1"
    and g: "get_translated_dataset E D src_lang dest_lang transition_langs =
              translate_hops E ?chain [r ..< length ?chain - 1] start D"
    by blast
  have run: "translate_hops E ?chain [r ..< length ?chain - 1] start D = (Inr ds, D', evs)"
    using assms g by simp
  have ne: "[r ..< length ?chain - 1] \<noteq> []" using lt by simp
  have la: "last [r ..< length ?chain - 1] + 1 = Suc (length transition_langs)"
    using lt by simp
  have "D' (cache_file E ?chain (last [r ..< length ?chain - 1] + 1)) = Some (dataset_to_dict ds)"
    using translate_hops_ok[OF run] ne by blast
  then have "D' (translated_file E src_lang dest_lang transition_langs) = Some (dataset_to_dict ds)"
    unfolding la using cache_file_full[of E src_lang transition_langs dest_lang] by simp
  then show ?thesis
    using get_translated_dataset_hit[of D' E src_lang dest_lang transition_langs] 
    by (simp add: from_to_dict)
qed

text \<open>An instance.\<close>

theorem second_call_is_cache_hit_witness:
  "fst (get_translated_dataset ex_env ex_disk_base ''en'' ''es'' [''fr'']) =
     Inr [\<lparr>elem_id = ''7_en_fr_es'', elem_text = ''yy'', elem_category = ''CRITICAL''\<rparr>]
 \<and> snd (snd (get_translated_dataset ex_env ex_disk_base ''en'' ''es'' [''fr''])) =
     [LoadModel ''en'' ''fr'', TranslateText ''ab'', WriteFile ''cache/en-fr.json'',
      LoadModel ''fr'' ''es'', TranslateText ''xy'', WriteFile ''cache/en-fr-es.json'']
 \<and> fst (get_translated_dataset ex_env
          (fst (snd (get_translated_dataset ex_env ex_disk_base ''en'' ''es'' [''fr''])))
          ''en'' ''es'' [''fr'']) =
     Inr [\<lparr>elem_id = ''7_en_fr_es'', elem_text = ''yy'', elem_category = ''CRITICAL''\<rparr>]
 \<and> snd (snd (get_translated_dataset ex_env
          (fst (snd (get_translated_dataset ex_env ex_disk_base ''en'' ''es'' [''fr''])))
          ''en'' ''es'' [''fr''])) = []"
proof -
  let ?first = "get_translated_dataset ex_env ex_disk_base ''en'' ''es'' [''fr'']"
  let ?ds = "[\<lparr>elem_id = ''7_en_fr_es'', elem_text = ''yy'', elem_category = ''CRITICAL''\<rparr>]"
  have a: "fst ?first = Inr ?ds" by code_simp
  have b: "snd (snd ?first) =
     [LoadModel ''en'' ''fr'', TranslateText ''ab'', WriteFile ''cache/en-fr.json'',
      LoadModel ''fr'' ''es'', TranslateText ''xy'', WriteFile ''cache/en-fr-es.json'']"
    by code_simp
  have h: "?first = (Inr ?ds, fst (snd ?first), snd (snd ?first))"
    using a by (metis prod.collapse)
  from second_call_is_cache_hit[OF h]
  show ?thesis using a b by simp
qed

text \<open>
  Claim C4, as stated, fails. A chain with two equal consecutive languages is not
  always rejected: when the cache file of the full chain exists its dataset is returned,
  when the base dataset is missing the exception is \<^verbatim>\<open>FileNotFoundError\<close>, and the chain
  of one language to itself with no intermediate language returns the base dataset.
\<close>

theorem adjacent_duplicate_not_always_rejected:
  "has_equal_hop ([''en''] @ [''en''] @ [''es''])
 \<and> fst (get_translated_dataset ex_env ex_disk_dup ''en'' ''es'' [''en'']) =
     Inr [\<lparr>elem_id = ''7_en_en_es'', elem_text = ''zz'', elem_category = ''CRITICAL''\<rparr>]
 \<and> fst (get_translated_dataset ex_env Map.empty ''en'' ''es'' [''en'']) =
     Inl (FileNotFoundError ''File not found: cache/en-en.json'')
 \<and> has_equal_hop ([''en''] @ [] @ [''en''])
 \<and> fst (get_translated_dataset ex_env ex_disk_base ''en'' ''en'' []) =
     Inr [\<lparr>elem_id = ''7'', elem_text = ''ab'', elem_category = ''CRITICAL''\<rparr>]"
  by code_simp

text \<open>
  Claim C4, amended. For a chain with two equal consecutive languages, other than
  a language to itself with no intermediate language, whose full-chain cache file is
  absent and whose base dataset exists, the call raises \<^verbatim>\<open>ValueError\<close>, with the disk
  unchanged and no event: no model loaded, nothing translated, nothing written.
\<close>

theorem adjacent_duplicate_rejected_on_miss:
  assumes "has_equal_hop ([src_lang] @ transition_langs @ [dest_lang])"
    and "\<not> (src_lang = dest_lang \<and> transition_langs = [])"
    and "D (translated_file E src_lang dest_lang transition_langs) = None"
    and "D (translated_file E src_lang src_lang []) = Some base"
  shows "get_translated_dataset E D src_lang dest_lang transition_langs =
     (Inl (ValueError ''Source and destination languages must be different for each transition.''),
      D, [])"
  using get_translated_dataset_miss[of D E src_lang dest_lang transition_langs, OF assms(3)]
    translate_dataset_invalid[of D E src_lang base transition_langs dest_lang, OF assms(4) _ assms(1)]
    assms(2)
  by auto

text \<open>An instance.\<close>

theorem adjacent_duplicate_rejected_on_miss_witness:
  "has_equal_hop ([''en''] @ [''en''] @ [''es''])
 \<and> \<not> (''en'' = ''es'' \<and> [''en''] = [])
 \<and> ex_disk_base (translated_file ex_env ''en'' ''es'' [''en'']) = None
 \<and> ex_disk_base (translated_file ex_env ''en'' ''en'' []) = Some [JsonDict ''7'' ''ab'' ''CRITICAL'']
 \<and> get_translated_dataset ex_env ex_disk_base ''en'' ''es'' [''en''] =
     (Inl (ValueError ''Source and destination languages must be different for each transition.''),
      ex_disk_base, [])"
proof -
  have h1: "has_equal_hop ([''en''] @ [''en''] @ [''es''])" by code_simp
  have h2: "\<not> (''en'' = ''es'' \<and> [''en''] = [])" by simp
  have h3: "ex_disk_base (translated_file ex_env ''en'' ''es'' [''en'']) = None" by code_simp
  have h4: "ex_disk_base (translated_file ex_env ''en'' ''en'' []) =
      Some [JsonDict ''7'' ''ab'' ''CRITICAL'']"
    by code_simp
  from adjacent_duplicate_rejected_on_miss[of "''en''" "[''en'']" "''es''" ex_disk_base ex_env,
      OF h1 h2 h3 h4]
  show ?thesis using h1 h2 h3 h4 by blast
qed



text \<open>
  Claim C6. With chunk size \<open>M\<close>, half the model's maximum length and positive, a
  text of \<open>N\<close> tokens gives \<open>\<lceil>N / M\<rceil>\<close> chunks; chunk \<open>k\<close> is the \<open>M\<close> tokens from
  position \<open>k * M\<close> (fewer at the end), so every chunk has at most \<open>M\<close> tokens and the
  chunks concatenated are the token sequence; and the translation is the decoded outputs
  of the chunks, in order, joined by single spaces (or the failure of a generation).
\<close>

theorem chunking_correct:
  assumes "0 < max_length model div 2"
  shows "\<exists>chunks.
     get_tokenized_chunks text tokenizer (max_length model div 2) = Inr chunks
   \<and> int (length chunks) =
       \<lceil>real (length (input_ids (tokenize tokenizer text))) / real (nat (max_length model div 2))\<rceil>
   \<and> (\<forall>k < length chunks. input_ids (chunks ! k) =
         take (nat (max_length model div 2))
           (drop (k * nat (max_length model div 2)) (input_ids (tokenize tokenizer text))))
   \<and> (\<forall>c \<in> set chunks. length (input_ids c) \<le> nat (max_length model div 2))
   \<and> concat (map input_ids chunks) = input_ids (tokenize tokenizer text)
   \<and> translate_text text tokenizer model =
       (if \<forall>c \<in> set chunks. generate model c \<noteq> None
        then Inr (str_join '' '' (map (\<lambda>c. decode tokenizer (the (generate model c))) chunks))
        else Inl BackendError)"
proof -
  let ?M = "nat (max_length model div 2)"
  let ?ids = "input_ids (tokenize tokenizer text)"
  let ?mask = "attention_mask (tokenize tokenizer text)"
  let ?cs = "map (\<lambda>i. \<lparr>input_ids = take ?M (drop i ?ids), attention_mask = take ?M (drop i ?mask)\<rparr>)
               (range_step 0 (length ?ids) ?M)"
  have M: "0 < ?M" using assms by simp
  have g: "get_tokenized_chunks text tokenizer (max_length model div 2) = Inr ?cs"
    using assms by (simp add: get_tokenized_chunks_def Let_def)
  have len: "length ?cs = (length ?ids + ?M - 1) div ?M"
    by (simp add: range_step_eq[OF M])
  have n: "int (length ?cs) = \<lceil>real (length ?ids) / real ?M\<rceil>"
    unfolding len by (rule ceiling_nat_div[OF M, symmetric])
  have nth: "\<forall>k < length ?cs. input_ids (?cs ! k) = take ?M (drop (k * ?M) ?ids)"
    by (simp add: range_step_eq[OF M])
  have le: "\<forall>c \<in> set ?cs. length (input_ids c) \<le> ?M"
    by auto
  have "map input_ids ?cs = map (\<lambda>i. take ?M (drop i ?ids)) (range_step 0 (length ?ids) ?M)"
    by (simp add: comp_def)
  then have cat: "concat (map input_ids ?cs) = ?ids"
    using concat_chunks_aux[OF M refl, of ?ids 0] by (simp only: drop_0)
  have tr: "translate_text text tokenizer model =
       (if \<forall>c \<in> set ?cs. generate model c \<noteq> None
        then Inr (str_join '' '' (map (\<lambda>c. decode tokenizer (the (generate model c))) ?cs))
        else Inl BackendError)"
    unfolding translate_text_def g by (simp add: translate_chunks_all)
  show ?thesis
    using g n nth le cat tr by blast
qed

text \<open>An instance.\<close>

theorem chunking_correct_witness:
  "0 < max_length ex_model div 2
   \<and> get_tokenized_chunks ''abaab'' ex_tokenizer (max_length ex_model div 2) =
       Inr [\<lparr>input_ids = [0, 1], attention_mask = [1, 1]\<rparr>,
            \<lparr>input_ids = [0, 0], attention_mask = [1, 1]\<rparr>,
            \<lparr>input_ids = [1], attention_mask = [1]\<rparr>]
   \<and> \<lceil>real (length (input_ids (tokenize ex_tokenizer ''abaab''))) / real (nat (max_length ex_model div 2))\<rceil> = 3
   \<and> translate_text ''abaab'' ex_tokenizer ex_model = Inr ''xy xx y''"
proof -
  have h: "0 < max_length ex_model div 2" by (simp add: ex_model_def)
  have c: "get_tokenized_chunks ''abaab'' ex_tokenizer (max_length ex_model div 2) =
       Inr [\<lparr>input_ids = [0, 1], attention_mask = [1, 1]\<rparr>,
            \<lparr>input_ids = [0, 0], attention_mask = [1, 1]\<rparr>,
            \<lparr>input_ids = [1], attention_mask = [1]\<rparr>]"
    by (simp add: chunks_of_positive ex_model_def ex_tokenizer_def upt_rec)
  from chunking_correct[OF h, of "''abaab''" ex_tokenizer] c show ?thesis
    using h by (auto simp: ex_model_def ex_tokenizer_def)
qed

text \<open>
  Claim C7. For equal source and destination language and no intermediate language,
  the call returns the base dataset of that language as loaded, leaves the disk unchanged
  and causes no event.
\<close>

theorem degenerate_pass_through:
  assumes "D (translated_file E lang lang []) = Some c"
  shows "get_translated_dataset E D lang lang [] = (Inr (dataset_from_dict c), D, [])"
  using assms by (simp add: get_translated_dataset_def load_single)

text \<open>An instance.\<close>

theorem degenerate_pass_through_witness:
  "ex_disk_base (translated_file ex_env ''en'' ''en'' []) = Some [JsonDict ''7'' ''ab'' ''CRITICAL'']
 \<and> get_translated_dataset ex_env ex_disk_base ''en'' ''en'' [] =
     (Inr [\<lparr>elem_id = ''7'', elem_text = ''ab'', elem_category = ''CRITICAL''\<rparr>], ex_disk_base, [])"
proof -
  have h: "ex_disk_base (translated_file ex_env ''en'' ''en'' []) =
      Some [JsonDict ''7'' ''ab'' ''CRITICAL'']"
    by code_simp
  from degenerate_pass_through[of ex_disk_base ex_env "''en''", OF h]
  show ?thesis using h by (simp add: dataset_from_dict_def)
qed

text \<open>
  Claim C8. When the cache file of the full chain exists, the call returns its
  dataset, whatever the chain: nothing is validated, so a chain with two equal
  consecutive languages is served from the cache.
\<close>

theorem cached_chain_not_validated:
  assumes "D (translated_file E src_lang dest_lang transition_langs) = Some c"
  shows "get_translated_dataset E D src_lang dest_lang transition_langs =
     (Inr (dataset_from_dict c), D, [])"
  using assms by (auto simp: get_translated_dataset_def load_single)

text \<open>An instance.\<close>

theorem cached_chain_not_validated_witness:
  "has_equal_hop ([''en''] @ [''en''] @ [''es''])
 \<and> ex_disk_dup (translated_file ex_env ''en'' ''es'' [''en'']) =
     Some [JsonDict ''7_en_en_es'' ''zz'' ''CRITICAL'']
 \<and> get_translated_dataset ex_env ex_disk_dup ''en'' ''es'' [''en''] =
     (Inr [\<lparr>elem_id = ''7_en_en_es'', elem_text = ''zz'', elem_category = ''CRITICAL''\<rparr>],
      ex_disk_dup, [])"
proof -
  have d: "has_equal_hop ([''en''] @ [''en''] @ [''es''])" by code_simp
  have h: "ex_disk_dup (translated_file ex_env ''en'' ''es'' [''en'']) =
      Some [JsonDict ''7_en_en_es'' ''zz'' ''CRITICAL'']"
    by code_simp
  from cached_chain_not_validated[of ex_disk_dup ex_env "''en''" "''es''" "[''en'']", OF h]
  show ?thesis using d h by (simp add: dataset_from_dict_def)
qed

text \<open>
  Claim C9. When the base dataset of the source language is missing,
  \<^verbatim>\<open>_translate_dataset\<close> raises \<^verbatim>\<open>FileNotFoundError\<close> for it before anything else, and
  so does every call that misses the full-chain cache, also when a cached prefix exists.
\<close>

theorem missing_base_dataset_raises:
  assumes "D (translated_file E src_lang dest_lang transition_langs) = None"
    and "D (translated_file E src_lang src_lang []) = None"
  shows "translate_dataset E D src_lang dest_lang transition_langs =
           (Inl (FileNotFoundError (''File not found: '' @ translated_file E src_lang src_lang [])),
            D, [])
       \<and> get_translated_dataset E D src_lang dest_lang transition_langs =
           (Inl (FileNotFoundError (''File not found: '' @ translated_file E src_lang src_lang [])),
            D, [])"
  using get_translated_dataset_miss[of D E src_lang dest_lang transition_langs, OF assms(1)]
    translate_dataset_no_base[of D E src_lang dest_lang transition_langs, OF assms(2)]
  by auto

text \<open>An instance.\<close>

theorem missing_base_dataset_raises_witness:
  "ex_disk_no_base (translated_file ex_env ''en'' ''es'' [''fr'']) = None
 \<and> ex_disk_no_base (translated_file ex_env ''en'' ''en'' []) = None
 \<and> ex_disk_no_base (cache_file ex_env ([''en''] @ [''fr''] @ [''es'']) 1) =
     Some [JsonDict ''7_en_fr'' ''ba'' ''CRITICAL'']
 \<and> get_translated_dataset ex_env ex_disk_no_base ''en'' ''es'' [''fr''] =
     (Inl (FileNotFoundError ''File not found: cache/en-en.json''), ex_disk_no_base, [])"
proof -
  have h1: "ex_disk_no_base (translated_file ex_env ''en'' ''es'' [''fr'']) = None" by code_simp
  have h2: "ex_disk_no_base (translated_file ex_env ''en'' ''en'' []) = None" by code_simp
  have p: "ex_disk_no_base (cache_file ex_env ([''en''] @ [''fr''] @ [''es'']) 1) =
     Some [JsonDict ''7_en_fr'' ''ba'' ''CRITICAL'']"
    by code_simp
  have n: "translated_file ex_env ''en'' ''en'' [] = ''cache/en-en.json''" by code_simp
  from missing_base_dataset_raises[of ex_disk_no_base ex_env "''en''" "''es''" "[''fr'']", OF h1 h2]
  show ?thesis using h1 h2 p unfolding n by simp
qed

text \<open>
  Claim C10. In a call that missed the full-chain cache and returned, the model
  loads are exactly those of the hops from the resume index to the end of the chain, one
  per hop and in order, so their number is the length of the chain minus one minus the
  resume index; a pair of languages that occurs in two hops is loaded twice.
\<close>

theorem model_loaded_once_per_hop:
  assumes "D (translated_file E src_lang dest_lang transition_langs) = None"
    and "get_translated_dataset E D src_lang dest_lang transition_langs = (Inr ds', D', evs)"
  shows "\<exists>base r start.
      D (translated_file E src_lang src_lang []) = Some base
    \<and> find_cached E D ([src_lang] @ transition_langs @ [dest_lang]) (dataset_from_dict base)
        (length ([src_lang] @ transition_langs @ [dest_lang]) - 1) = Inr (r, start)
    \<and> filter is_load evs =
        map (hop_load ([src_lang] @ transition_langs @ [dest_lang]))
          [r ..< length ([src_lang] @ transition_langs @ [dest_lang]) - 1]
    \<and> length (filter is_load evs) = length ([src_lang] @ transition_langs @ [dest_lang]) - 1 - r"
proof -
  let ?chain = "[src_lang] @ transition_langs @ [dest_lang]"
  from success_needs_base[OF assms] obtain b where
    b: "D (translated_file E src_lang src_lang []) = Some b" and v: "\<not> has_equal_hop ?chain"
    by blast
  from resume_point[of D E src_lang dest_lang transition_langs b, OF assms(1) b v]
  obtain r start where
    f: "find_cached E D ?chain (dataset_from_dict b) (length ?chain - 1) = Inr (r, start)"
    and g: "get_translated_dataset E D src_lang dest_lang transition_langs =
              translate_hops E ?chain [r ..< length ?chain - 1] start D"
    by blast
  have run: "translate_hops E ?chain [r ..< length ?chain - 1] start D = (Inr ds', D', evs)"
    using assms(2) g by simp
  have l: "filter is_load evs = map (hop_load ?chain) [r ..< length ?chain - 1]"
    using translate_hops_loads[OF run] by blast
  then have "length (filter is_load evs) = length ?chain - 1 - r"
    by (simp del: upt_Suc)
  then show ?thesis using b f l by blast
qed

text \<open>An instance.\<close>

theorem model_loaded_once_per_hop_witness:
  "ex_disk_base (translated_file ex_env ''en'' ''es'' [''es'', ''en'']) = None
 \<and> fst (get_translated_dataset ex_env ex_disk_base ''en'' ''es'' [''es'', ''en'']) =
     Inr [\<lparr>elem_id = ''7_en_es_en_es'', elem_text = ''yy'', elem_category = ''CRITICAL''\<rparr>]
 \<and> filter is_load (snd (snd (get_translated_dataset ex_env ex_disk_base ''en'' ''es'' [''es'', ''en'']))) =
     [LoadModel ''en'' ''es'', LoadModel ''es'' ''en'', LoadModel ''en'' ''es'']
 \<and> length (filter is_load
       (snd (snd (get_translated_dataset ex_env ex_disk_base ''en'' ''es'' [''es'', ''en''])))) =
     length ([''en''] @ [''es'', ''en''] @ [''es'']) - 1 - 0"
proof -
  let ?run = "get_translated_dataset ex_env ex_disk_base ''en'' ''es'' [''es'', ''en'']"
  let ?chain = "[''en''] @ [''es'', ''en''] @ [''es'']"
  let ?base = "[JsonDict ''7'' ''ab'' ''CRITICAL'']"
  have h1: "ex_disk_base (translated_file ex_env ''en'' ''es'' [''es'', ''en'']) = None"
    by code_simp
  have a: "fst ?run =
      Inr [\<lparr>elem_id = ''7_en_es_en_es'', elem_text = ''yy'', elem_category = ''CRITICAL''\<rparr>]"
    by code_simp
  have h2: "?run =
      (Inr [\<lparr>elem_id = ''7_en_es_en_es'', elem_text = ''yy'', elem_category = ''CRITICAL''\<rparr>],
       fst (snd ?run), snd (snd ?run))"
    using a by (metis prod.collapse)
  have b: "ex_disk_base (translated_file ex_env ''en'' ''en'' []) = Some ?base" by code_simp
  have f: "find_cached ex_env ex_disk_base ?chain (dataset_from_dict ?base) (length ?chain - 1) =
      Inr (0, [\<lparr>elem_id = ''7'', elem_text = ''ab'', elem_category = ''CRITICAL''\<rparr>])"
    by code_simp
  have l: "filter is_load (snd (snd ?run)) =
      [LoadModel ''en'' ''es'', LoadModel ''es'' ''en'', LoadModel ''en'' ''es'']"
    by code_simp
  from model_loaded_once_per_hop[OF h1 h2] b f
  have "length (filter is_load (snd (snd ?run))) = length ?chain - 1 - 0"
    by (metis (no_types, lifting) option.inject sum.inject(2) prod.inject)
  then show ?thesis using h1 a l by blast
qed

end
